theory Spec2Isabelle
  imports Main "HOL-Library.Word" "HOL-Library.AList"
begin

section \<open>Strings, bytes and numbers of the platform\<close>

text \<open>
  A string of the model is the UTF-8 byte sequence of the JavaScript string it stands
  for; ASCII text is written as it is and a character outside ASCII is written as its
  bytes. Splitting at an ASCII separator, comparing two strings and cutting a prefix of
  an ASCII string agree on bytes and on UTF-16 code units. Numbers that hold a time in
  milliseconds are integers (a double represents every integer below \<open>2 ^ 53\<close>
  exactly); a comparison with NaN is modelled where it arises.
\<close>

type_synonym byte = "8 word"

text \<open>\<^verbatim>\<open>String.prototype.split(sep)\<close> for a one-character separator: the pieces
  between the separators, at least one piece, empty pieces kept.\<close>

fun split_on :: "char \<Rightarrow> string \<Rightarrow> string list" where
  "split_on d [] = [[]]"
| "split_on d (c # cs) =
     (if c = d then [] # split_on d cs
      else (case split_on d cs of [] \<Rightarrow> [[c]] | p # ps \<Rightarrow> (c # p) # ps))"

text \<open>The white space that \<^verbatim>\<open>trim\<close> and the start of \<^verbatim>\<open>parseInt\<close> skip
  (ECMAScript WhiteSpace and LineTerminator), each as its UTF-8 bytes.\<close>

definition white_space :: "string list" where
  "white_space =
    [ [CHR 0x09], [CHR 0x0A], [CHR 0x0B], [CHR 0x0C], [CHR 0x0D], [CHR 0x20],
      [CHR 0xC2, CHR 0xA0],
      [CHR 0xE1, CHR 0x9A, CHR 0x80],
      [CHR 0xE2, CHR 0x80, CHR 0x80], [CHR 0xE2, CHR 0x80, CHR 0x81],
      [CHR 0xE2, CHR 0x80, CHR 0x82], [CHR 0xE2, CHR 0x80, CHR 0x83],
      [CHR 0xE2, CHR 0x80, CHR 0x84], [CHR 0xE2, CHR 0x80, CHR 0x85],
      [CHR 0xE2, CHR 0x80, CHR 0x86], [CHR 0xE2, CHR 0x80, CHR 0x87],
      [CHR 0xE2, CHR 0x80, CHR 0x88], [CHR 0xE2, CHR 0x80, CHR 0x89],
      [CHR 0xE2, CHR 0x80, CHR 0x8A],
      [CHR 0xE2, CHR 0x80, CHR 0xA8], [CHR 0xE2, CHR 0x80, CHR 0xA9],
      [CHR 0xE2, CHR 0x80, CHR 0xAF],
      [CHR 0xE2, CHR 0x81, CHR 0x9F],
      [CHR 0xE3, CHR 0x80, CHR 0x80],
      [CHR 0xEF, CHR 0xBB, CHR 0xBF] ]"

text \<open>The number of bytes of the white-space character a string starts with, 0 when
  it starts with none.\<close>

definition ws_len :: "string \<Rightarrow> nat" where
  "ws_len s =
     (case filter (\<lambda>w. take (length w) s = w) white_space of
        [] \<Rightarrow> 0
      | w # _ \<Rightarrow> length w)"

text \<open>The same at the end of a string.\<close>

definition ws_len_end :: "string \<Rightarrow> nat" where
  "ws_len_end s =
     (case filter (\<lambda>w. take (length w) (rev s) = rev w) white_space of
        [] \<Rightarrow> 0
      | w # _ \<Rightarrow> length w)"

function trimStart :: "string \<Rightarrow> string" where
  "trimStart s = (if s = [] \<or> ws_len s = 0 then s else trimStart (drop (ws_len s) s))"
  by pat_completeness auto
termination
  by (relation "measure length") auto

declare trimStart.simps [simp del]

function trimEnd :: "string \<Rightarrow> string" where
  "trimEnd s =
     (if s = [] \<or> ws_len_end s = 0 then s
      else trimEnd (take (length s - ws_len_end s) s))"
  by pat_completeness auto
termination
  by (relation "measure length") auto

declare trimEnd.simps [simp del]

definition trim :: "string \<Rightarrow> string" where
  "trim s = trimEnd (trimStart s)"

text \<open>\<^verbatim>\<open>Buffer.toString('hex')\<close> and \<^verbatim>\<open>digest('hex')\<close>: two lower-case
  hexadecimal digits for each byte.\<close>

definition hex_digit :: "nat \<Rightarrow> char" where
  "hex_digit n = char_of (if n < 10 then 48 + n else 87 + n)"

definition hex_of_bytes :: "byte list \<Rightarrow> string" where
  "hex_of_bytes bs =
     concat (map (\<lambda>b. [hex_digit (unat b div 16), hex_digit (unat b mod 16)]) bs)"

text \<open>\<^verbatim>\<open>Number.prototype.toString(36)\<close> on an integer: digits \<^verbatim>\<open>0-9a-z\<close>, a
  leading minus sign for a negative number.\<close>

definition digit36 :: "nat \<Rightarrow> char" where
  "digit36 n = char_of (if n < 10 then 48 + n else 87 + n)"

function nat_to_base36 :: "nat \<Rightarrow> string" where
  "nat_to_base36 n =
     (if n < 36 then [digit36 n] else nat_to_base36 (n div 36) @ [digit36 (n mod 36)])"
  by pat_completeness auto
termination
  by (relation "measure id") auto

declare nat_to_base36.simps [simp del]

definition toString36 :: "int \<Rightarrow> string" where
  "toString36 n = (if n < 0 then CHR ''-'' # nat_to_base36 (nat (- n)) else nat_to_base36 (nat n))"

text \<open>\<^verbatim>\<open>parseInt(s, 36)\<close>: leading white space is skipped, then an optional sign,
  then the longest run of digits \<^verbatim>\<open>0-9a-zA-Z\<close> is read in base 36 and the rest
  of the string is ignored. With no digit the result is NaN, here \<open>None\<close>.
  \<open>base36_value\<close> is applied to that run of digits only.\<close>

definition digit36_val :: "char \<Rightarrow> nat option" where
  "digit36_val c =
     (let n = (of_char c :: nat) in
      if 48 \<le> n \<and> n \<le> 57 then Some (n - 48)
      else if 97 \<le> n \<and> n \<le> 122 then Some (n - 87)
      else if 65 \<le> n \<and> n \<le> 90 then Some (n - 55)
      else None)"

definition is_digit36 :: "char \<Rightarrow> bool" where
  "is_digit36 c = (digit36_val c \<noteq> None)"

definition base36_value :: "string \<Rightarrow> nat" where
  "base36_value ds = foldl (\<lambda>acc c. acc * 36 + the (digit36_val c)) 0 ds"

definition parseInt36 :: "string \<Rightarrow> int option" where
  "parseInt36 s =
     (let t = trimStart s;
          neg = (t \<noteq> [] \<and> hd t = CHR ''-'');
          u = (if t \<noteq> [] \<and> (hd t = CHR ''-'' \<or> hd t = CHR ''+'') then tl t else t);
          ds = takeWhile is_digit36 u
      in if ds = [] then None
         else Some (if neg then - int (base36_value ds) else int (base36_value ds)))"

section \<open>The CSRF state engine\<close>

text \<open>
  \<^verbatim>\<open>createHmac('sha256', key).update(msg)\<close> of Node's crypto library is a
  parameter \<open>mac\<close> of the model: the bytes of the digest, for a key and a message.
  \<^verbatim>\<open>randomBytes(16)\<close> and \<^verbatim>\<open>Date.now()\<close> are inputs: the bytes drawn and the
  clock in milliseconds.
\<close>

type_synonym hmac = "string \<Rightarrow> string \<Rightarrow> byte list"

definition state_signature :: "hmac \<Rightarrow> string \<Rightarrow> string \<Rightarrow> string" where
  "state_signature mac appSecret payload = take 16 (hex_of_bytes (mac appSecret payload))"

definition generateState :: "hmac \<Rightarrow> byte list \<Rightarrow> int \<Rightarrow> string \<Rightarrow> string" where
  "generateState mac random now appSecret =
     (let nonce = hex_of_bytes random;
          ts = toString36 now;
          payload = ts @ ''.'' @ nonce;
          sig = state_signature mac appSecret payload
      in payload @ ''.'' @ sig)"

text \<open>\<^verbatim>\<open>verifyState\<close>. No step of the body raises on strings, so the handler of the
  \<^verbatim>\<open>try\<close> is never entered and the function is total. When the time stamp is NaN the
  comparison \<^verbatim>\<open>Date.now() - timestamp > maxAgeMs\<close> is false.\<close>

definition verifyState :: "hmac \<Rightarrow> int \<Rightarrow> string \<Rightarrow> string \<Rightarrow> int \<Rightarrow> bool" where
  "verifyState mac now state appSecret maxAgeMs =
     (let parts = split_on CHR ''.'' state in
      if length parts \<noteq> 3 then False
      else
        let ts = parts ! 0; nonce = parts ! 1; sig = parts ! 2;
            payload = ts @ ''.'' @ nonce;
            expectedSig = state_signature mac appSecret payload
        in if sig \<noteq> expectedSig then False
           else (case parseInt36 ts of
                   None \<Rightarrow> True
                 | Some timestamp \<Rightarrow> if now - timestamp > maxAgeMs then False else True))"

text \<open>The default of the third argument, \<^verbatim>\<open>10 * 60 * 1000\<close>.\<close>

definition default_maxAgeMs :: int where
  "default_maxAgeMs = 10 * 60 * 1000"

section \<open>JavaScript values\<close>

text \<open>
  The values that claims carry: what \<^verbatim>\<open>JSON.parse\<close> can return, and \<^verbatim>\<open>undefined\<close>
  for a property that is not there. \<open>JNum n\<close> is the integer-valued number \<open>n\<close>; numbers
  with a fraction, NaN and the infinities are not modelled. An object is the list of
  its own properties in enumeration order, with distinct keys. On a claims object only
  the own properties are read; on a rule map, whose keys are team identifiers, the
  members inherited from \<^verbatim>\<open>Object.prototype\<close> are modelled as well (see
  \<open>js_member\<close> below).
\<close>

datatype jsval =
    JUndefined
  | JNull
  | JBool bool
  | JNum int
  | JStr string
  | JArr "jsval list"
  | JObj "(string \<times> jsval) list"

type_synonym claims = "(string \<times> jsval) list"

text \<open>\<^verbatim>\<open>obj[name]\<close> on an object.\<close>

definition get_prop :: "claims \<Rightarrow> string \<Rightarrow> jsval" where
  "get_prop obj name = (case map_of obj name of None \<Rightarrow> JUndefined | Some v \<Rightarrow> v)"

text \<open>\<^verbatim>\<open>a ?? b\<close>: the right operand when the left one is \<^verbatim>\<open>null\<close> or \<^verbatim>\<open>undefined\<close>.\<close>

fun nullish :: "jsval \<Rightarrow> bool" where
  "nullish JUndefined = True"
| "nullish JNull = True"
| "nullish _ = False"

definition coalesce :: "jsval \<Rightarrow> jsval \<Rightarrow> jsval" where
  "coalesce a b = (if nullish a then b else a)"

text \<open>Truthiness, as \<^verbatim>\<open>!v\<close> and \<^verbatim>\<open>if (v)\<close> read a value.\<close>

fun truthy :: "jsval \<Rightarrow> bool" where
  "truthy JUndefined = False"
| "truthy JNull = False"
| "truthy (JBool b) = b"
| "truthy (JNum n) = (n \<noteq> 0)"
| "truthy (JStr s) = (s \<noteq> [])"
| "truthy (JArr xs) = True"
| "truthy (JObj kvs) = True"

text \<open>Decimal numerals: \<^verbatim>\<open>String(n)\<close> of an integer below \<open>10 ^ 21\<close> in magnitude, and
  the numeral a template literal writes for an HTTP status.\<close>

function nat_to_decimal :: "nat \<Rightarrow> string" where
  "nat_to_decimal n =
     (if n < 10 then [char_of (48 + n)]
      else nat_to_decimal (n div 10) @ [char_of (48 + n mod 10)])"
  by pat_completeness auto
termination
  by (relation "measure id") auto

declare nat_to_decimal.simps [simp del]

definition number_toString :: "int \<Rightarrow> string" where
  "number_toString n =
     (if n < 0 then CHR ''-'' # nat_to_decimal (nat (- n)) else nat_to_decimal (nat n))"

fun join_with :: "string \<Rightarrow> string list \<Rightarrow> string" where
  "join_with sep [] = []"
| "join_with sep [x] = x"
| "join_with sep (x # y # ys) = x @ sep @ join_with sep (y # ys)"

text \<open>\<^verbatim>\<open>String(v)\<close>. An array is the join of its elements with commas, \<^verbatim>\<open>null\<close> and
  \<^verbatim>\<open>undefined\<close> elements as the empty string.\<close>

fun js_String :: "jsval \<Rightarrow> string" where
  "js_String JUndefined = ''undefined''"
| "js_String JNull = ''null''"
| "js_String (JBool b) = (if b then ''true'' else ''false'')"
| "js_String (JNum n) = number_toString n"
| "js_String (JStr s) = s"
| "js_String (JArr xs) = join_with '','' (map (\<lambda>x. if nullish x then [] else js_String x) xs)"
| "js_String (JObj kvs) = ''[object Object]''"

text \<open>What a \<^verbatim>\<open>throw\<close> carries: the kind of the error and its \<^verbatim>\<open>message\<close>.\<close>

datatype exn = Error string | TypeError string | SyntaxError string

fun message :: "exn \<Rightarrow> string" where
  "message (Error m) = m"
| "message (TypeError m) = m"
| "message (SyntaxError m) = m"

section \<open>Configuration\<close>

record OidcConfig =
  enabled :: bool
  clientId :: string
  clientSecret :: string
  issuerUrl :: string
  scopes :: string
  redirectUri :: string
  roleClaim :: string
  adminGroup :: string
  autoCreate :: bool
  displayName :: string

section \<open>The discovery cache\<close>

text \<open>
  The two module variables \<^verbatim>\<open>_discoveryCache\<close> and \<^verbatim>\<open>_discoveryCacheTime\<close>, initially
  \<^verbatim>\<open>null\<close> and 0. \<^verbatim>\<open>fetch\<close> is a parameter: for a URL, either the rejection of the
  promise or the response, whose body is \<open>None\<close> when \<^verbatim>\<open>res.json()\<close> rejects.
  \<^verbatim>\<open>getDiscovery\<close> returns its result (or what it throws), the new cache and the
  URLs it requested.
\<close>

record discovery_cache =
  discoveryCache :: jsval
  discoveryCacheTime :: int

definition initial_discovery_cache :: discovery_cache where
  "initial_discovery_cache = \<lparr>discoveryCache = JNull, discoveryCacheTime = 0\<rparr>"

definition DISCOVERY_TTL_MS :: int where
  "DISCOVERY_TTL_MS = 5 * 60 * 1000"

record http_response =
  ok :: bool
  status :: nat
  statusText :: string
  json_body :: "exn + jsval"

type_synonym fetcher = "string \<Rightarrow> exn + http_response"

text \<open>\<^verbatim>\<open>s.replace(/\/+$/, '')\<close>: the string without its trailing slashes.\<close>

definition strip_trailing_slashes :: "string \<Rightarrow> string" where
  "strip_trailing_slashes s = rev (dropWhile (\<lambda>c. c = CHR ''/'') (rev s))"

definition wellKnown :: "string \<Rightarrow> string" where
  "wellKnown issuer = strip_trailing_slashes issuer @ ''/.well-known/openid-configuration''"

definition getDiscovery ::
  "fetcher \<Rightarrow> int \<Rightarrow> discovery_cache \<Rightarrow> string \<Rightarrow> (exn + jsval) \<times> discovery_cache \<times> string list"
where
  "getDiscovery fetch now c issuer =
     (if truthy (discoveryCache c) \<and> now - discoveryCacheTime c < DISCOVERY_TTL_MS
      then (Inr (discoveryCache c), c, [])
      else
        (case fetch (wellKnown issuer) of
           Inl e \<Rightarrow> (Inl e, c, [wellKnown issuer])
         | Inr res \<Rightarrow>
             if \<not> ok res
             then (Inl (Error (''OIDC discovery failed: '' @ nat_to_decimal (status res) @ '' ''
                         @ statusText res @ '' from '' @ wellKnown issuer)),
                   c, [wellKnown issuer])
             else
               (case json_body res of
                  Inl e \<Rightarrow> (Inl e, c, [wellKnown issuer])
                | Inr doc \<Rightarrow>
                    (Inr doc, \<lparr>discoveryCache = doc, discoveryCacheTime = now\<rparr>,
                     [wellKnown issuer]))))"

section \<open>The claim decoder\<close>

text \<open>
  \<^verbatim>\<open>Buffer.from(s, 'base64url').toString('utf-8')\<close> and \<^verbatim>\<open>JSON.parse\<close> belong to the
  platform and are parameters: \<open>decode\<close> is total, as Node's decoder is on strings
  (it skips what it cannot decode), and \<open>parse\<close> is \<open>None\<close> where \<^verbatim>\<open>JSON.parse\<close>
  throws. Every throw inside the \<^verbatim>\<open>try\<close> ends in the handler, which returns the
  empty object.
\<close>

definition parseIdTokenClaims :: "(string \<Rightarrow> string) \<Rightarrow> (string \<Rightarrow> jsval option) \<Rightarrow> string \<Rightarrow> jsval" where
  "parseIdTokenClaims decode parse idToken =
     (let parts = split_on CHR ''.'' idToken in
      if length parts \<noteq> 3 then JObj []
      else
        let payload = decode (parts ! 1)
        in (case parse payload of None \<Rightarrow> JObj [] | Some v \<Rightarrow> v))"

section \<open>The role mapper\<close>

text \<open>\<^verbatim>\<open>mapOidcRole\<close>; the configuration it reads with \<^verbatim>\<open>getOidcConfig()\<close> is its first
  argument here.\<close>

definition mapOidcRole :: "OidcConfig \<Rightarrow> claims \<Rightarrow> claims \<Rightarrow> string" where
  "mapOidcRole cfg userInfo idTokenClaims =
     (let claimName = roleClaim cfg;
          adminGrp = adminGroup cfg;
          claimValue = coalesce (get_prop userInfo claimName) (get_prop idTokenClaims claimName)
      in if \<not> truthy claimValue then ''user''
         else
           (case claimValue of
              JArr xs \<Rightarrow> if JStr adminGrp \<in> set xs then ''admin'' else ''user''
            | JStr s \<Rightarrow>
                if s = adminGrp then ''admin''
                else if adminGrp \<in> set (map trim (split_on CHR '','' s)) then ''admin''
                else ''user''
            | _ \<Rightarrow> ''user''))"

text \<open>The role mapper as the specification words it: the claim is read from the user
  info first and from the identity claims otherwise; no claim gives \<open>user\<close>; an array
  gives \<open>admin\<close> exactly when the admin group is a member; a string gives \<open>admin\<close> exactly
  when it is the admin group or the admin group is a trimmed element of its split at
  commas; any other value gives \<open>user\<close>.\<close>

definition spec_mapRole :: "OidcConfig \<Rightarrow> claims \<Rightarrow> claims \<Rightarrow> string" where
  "spec_mapRole cfg userInfo idClaims =
     (case coalesce (get_prop userInfo (roleClaim cfg)) (get_prop idClaims (roleClaim cfg)) of
        JUndefined \<Rightarrow> ''user''
      | JNull \<Rightarrow> ''user''
      | JArr xs \<Rightarrow> if JStr (adminGroup cfg) \<in> set xs then ''admin'' else ''user''
      | JStr s \<Rightarrow>
          if s = adminGroup cfg \<or> adminGroup cfg \<in> set (map trim (split_on CHR '','' s))
          then ''admin'' else ''user''
      | _ \<Rightarrow> ''user'')"

section \<open>The callback endpoint\<close>

text \<open>
  The request as the handler reads it: the query parameters and the three cookies, each
  absent or a string. The response is either the redirect to the login page, with the
  value of its \<^verbatim>\<open>error\<close> search parameter when one is set, or the response of the
  rest of the handler (steps 2 to 8). That rest is a parameter: what it throws or the
  response it builds.
\<close>

record callback_request =
  q_code :: "string option"
  q_state :: "string option"
  q_error :: "string option"
  q_error_description :: "string option"
  cookie_oidc_state :: "string option"
  cookie_oidc_nonce :: "string option"
  cookie_oidc_redirect_uri :: "string option"

datatype 'r response =
    RedirectLogin string "string option"
  | Completed 'r

text \<open>A string option is truthy when it is a non-empty string.\<close>

definition present :: "string option \<Rightarrow> bool" where
  "present v = (case v of None \<Rightarrow> False | Some s \<Rightarrow> s \<noteq> [])"

definition msg_state_mismatch :: string where
  "msg_state_mismatch =
     ''OIDC state mismatch '' @ [CHR 0xE2, CHR 0x80, CHR 0x93] @ '' possible CSRF attack''"

definition msg_state_verification_failed :: string where
  "msg_state_verification_failed = ''OIDC state verification failed (expired or tampered)''"

text \<open>Step 1 of the \<^verbatim>\<open>try\<close> block: the two checks of the state, each with its own
  \<^verbatim>\<open>throw\<close>.\<close>

definition verify_csrf_state :: "hmac \<Rightarrow> int \<Rightarrow> string \<Rightarrow> callback_request \<Rightarrow> exn + unit" where
  "verify_csrf_state mac now appSecret req =
     (let state = the (q_state req); savedState = cookie_oidc_state req in
      if \<not> present savedState \<or> Some state \<noteq> savedState
      then Inl (Error msg_state_mismatch)
      else if \<not> verifyState mac now state appSecret default_maxAgeMs
      then Inl (Error msg_state_verification_failed)
      else Inr ())"

definition callback_GET ::
  "hmac \<Rightarrow> int \<Rightarrow> OidcConfig \<Rightarrow> string \<Rightarrow> string \<Rightarrow> (exn + 'r) \<Rightarrow> callback_request \<Rightarrow> 'r response"
where
  "callback_GET mac now cfg baseUrl appSecret rest req =
     (if \<not> enabled cfg then RedirectLogin baseUrl None
      else if present (q_error req)
      then RedirectLogin baseUrl
             (Some (''OIDC: '' @ (if present (q_error_description req)
                                   then the (q_error_description req) else the (q_error req))))
      else if \<not> present (q_code req) \<or> \<not> present (q_state req)
      then RedirectLogin baseUrl (Some ''Invalid OIDC callback: missing code or state'')
      else
        (case (case verify_csrf_state mac now appSecret req of
                 Inl e \<Rightarrow> Inl e
               | Inr _ \<Rightarrow> rest) of
           Inl err \<Rightarrow>
             RedirectLogin baseUrl
               (Some (if message err \<noteq> [] then message err else ''OIDC authentication failed''))
         | Inr r \<Rightarrow> Completed r))"

section \<open>The team claim-rule engine\<close>

record TeamClaimRule =
  rule_id :: string
  claimField :: string
  claimValue :: string
  teamRole :: string
  createdAt :: string

text \<open>A \<^verbatim>\<open>TeamRulesMap\<close>: the teams in the order \<^verbatim>\<open>Object.keys\<close> lists them, each
  with its rules.\<close>

type_synonym TeamRulesMap = "(string \<times> TeamClaimRule list) list"

text \<open>
  The key-value store: the flag \<^verbatim>\<open>redis.enabled\<close> and the client, \<open>None\<close> when
  there is no client object, otherwise the keys and values it holds. A call on a
  missing client raises a \<^verbatim>\<open>TypeError\<close>. \<^verbatim>\<open>JSON.parse\<close> and \<^verbatim>\<open>JSON.stringify\<close> on
  rule maps are the parameters \<open>parse\<close> (\<open>None\<close> where it throws) and \<open>stringify\<close>.
\<close>

record redis =
  redis_enabled :: bool
  redis_client :: "(string \<times> string) list option"

definition RULES_KEY :: string where
  "RULES_KEY = ''oidc:team:rules''"

definition redis_get :: "redis \<Rightarrow> string \<Rightarrow> exn + string option" where
  "redis_get r k =
     (case redis_client r of
        None \<Rightarrow> Inl (TypeError ''Cannot read properties of undefined (reading 'get')'')
      | Some kvs \<Rightarrow> Inr (map_of kvs k))"

definition redis_set :: "redis \<Rightarrow> string \<Rightarrow> string \<Rightarrow> exn + redis" where
  "redis_set r k v =
     (case redis_client r of
        None \<Rightarrow> Inl (TypeError ''Cannot read properties of undefined (reading 'set')'')
      | Some kvs \<Rightarrow> Inr (r\<lparr>redis_client := Some (AList.update k v kvs)\<rparr>))"

definition getAllTeamRules :: "(string \<Rightarrow> TeamRulesMap option) \<Rightarrow> redis \<Rightarrow> TeamRulesMap" where
  "getAllTeamRules parse r =
     (if \<not> redis_enabled r then []
      else
        (case redis_get r RULES_KEY of
           Inl err \<Rightarrow> []
         | Inr None \<Rightarrow> []
         | Inr (Some data) \<Rightarrow>
             if data = [] then []
             else (case parse data of None \<Rightarrow> [] | Some m \<Rightarrow> m)))"

text \<open>
  \<^verbatim>\<open>all[teamId]\<close> on a rule map. The map is an ordinary object, so a team identifier
  that is no key of its own and names a member of \<^verbatim>\<open>Object.prototype\<close> reads that
  member: a function, or the prototype object for \<^verbatim>\<open>__proto__\<close>. Each of them is
  truthy and has neither \<^verbatim>\<open>push\<close> nor \<^verbatim>\<open>filter\<close>. The table gives the members
  and the value of their \<^verbatim>\<open>length\<close> property, \<open>None\<close> where there is none.
\<close>

definition object_prototype_members :: "(string \<times> nat option) list" where
  "object_prototype_members =
     [(''constructor'', Some 1),
      (''__defineGetter__'', Some 2),
      (''__defineSetter__'', Some 2),
      (''hasOwnProperty'', Some 1),
      (''__lookupGetter__'', Some 1),
      (''__lookupSetter__'', Some 1),
      (''isPrototypeOf'', Some 1),
      (''propertyIsEnumerable'', Some 1),
      (''toString'', Some 0),
      (''valueOf'', Some 0),
      (''__proto__'', None),
      (''toLocaleString'', Some 0)]"

datatype 'a looked_up =
    Undefined
  | Value 'a
  | ProtoMember "nat option"

definition js_member :: "(string \<times> 'a) list \<Rightarrow> string \<Rightarrow> 'a looked_up" where
  "js_member obj k =
     (case map_of obj k of
        Some v \<Rightarrow> Value v
      | None \<Rightarrow>
          (case map_of object_prototype_members k of
             Some len \<Rightarrow> ProtoMember len
           | None \<Rightarrow> Undefined))"

text \<open>\<^verbatim>\<open>getTeamRules\<close>: \<^verbatim>\<open>all[teamId] || []\<close>. A list of rules and an inherited
  member are truthy and are returned as they are.\<close>

definition getTeamRules ::
  "(string \<Rightarrow> TeamRulesMap option) \<Rightarrow> redis \<Rightarrow> string \<Rightarrow> TeamClaimRule list looked_up" where
  "getTeamRules parse r teamId =
     (case js_member (getAllTeamRules parse r) teamId of
        Undefined \<Rightarrow> Value []
      | Value rules \<Rightarrow> Value rules
      | ProtoMember len \<Rightarrow> ProtoMember len)"

text \<open>\<^verbatim>\<open>addTeamRule\<close>; \<open>uuid\<close> is what \<^verbatim>\<open>randomUUID()\<close> returns and \<open>nowIso\<close> what
  \<^verbatim>\<open>new Date().toISOString()\<close> returns. The result is the rule or what is thrown, and
  the store afterwards. On an inherited member \<^verbatim>\<open>all[teamId].push\<close> is no function.\<close>

definition addTeamRule ::
  "(string \<Rightarrow> TeamRulesMap option) \<Rightarrow> (TeamRulesMap \<Rightarrow> string) \<Rightarrow> string \<Rightarrow> string \<Rightarrow>
   redis \<Rightarrow> string \<Rightarrow> string \<Rightarrow> string \<Rightarrow> string \<Rightarrow> (exn + TeamClaimRule) \<times> redis"
where
  "addTeamRule parse stringify uuid nowIso r teamId claimFld claimVal teamRl =
     (let all0 = getAllTeamRules parse r;
          all1 = (if js_member all0 teamId = Undefined then all0 @ [(teamId, [])] else all0);
          rule = \<lparr>rule_id = uuid, claimField = trim claimFld, claimValue = trim claimVal,
                   teamRole = teamRl, createdAt = nowIso\<rparr>
      in (case js_member all1 teamId of
            Value rules \<Rightarrow>
              (let all2 = AList.update teamId (rules @ [rule]) all1
               in (case redis_set r RULES_KEY (stringify all2) of
                     Inl err \<Rightarrow> (Inl err, r)
                   | Inr r' \<Rightarrow> (Inr rule, r')))
          | _ \<Rightarrow> (Inl (TypeError ''all[teamId].push is not a function''), r)))"

text \<open>\<^verbatim>\<open>removeTeamRule\<close>. On an inherited member \<^verbatim>\<open>all[teamId].filter\<close> is no
  function. After \<^verbatim>\<open>delete all[teamId]\<close> the expression
  \<^verbatim>\<open>all[teamId]?.length ?? 0\<close> reads an inherited member again where the team
  identifier names one.\<close>

definition removeTeamRule ::
  "(string \<Rightarrow> TeamRulesMap option) \<Rightarrow> (TeamRulesMap \<Rightarrow> string) \<Rightarrow>
   redis \<Rightarrow> string \<Rightarrow> string \<Rightarrow> (exn + bool) \<times> redis"
where
  "removeTeamRule parse stringify r teamId ruleId =
     (let all0 = getAllTeamRules parse r in
      case js_member all0 teamId of
        Undefined \<Rightarrow> (Inr False, r)
      | ProtoMember len \<Rightarrow> (Inl (TypeError ''all[teamId].filter is not a function''), r)
      | Value rules \<Rightarrow>
          let before = length rules;
              kept = filter (\<lambda>x. rule_id x \<noteq> ruleId) rules;
              all1 = AList.update teamId kept all0;
              all2 = (if length kept = 0 then AList.delete teamId all1 else all1);
              after = (case js_member all2 teamId of
                         Undefined \<Rightarrow> 0
                       | Value rs \<Rightarrow> length rs
                       | ProtoMember None \<Rightarrow> 0
                       | ProtoMember (Some n) \<Rightarrow> n)
          in if after = before then (Inr False, r)
             else (case redis_set r RULES_KEY (stringify all2) of
                     Inl err \<Rightarrow> (Inl err, r)
                   | Inr r' \<Rightarrow> (Inr True, r')))"

text \<open>
  The rows of the database that the engine reads and writes: the identifiers of the
  teams and the membership rows. \<open>uuid\<close> is the supply of \<^verbatim>\<open>randomUUID()\<close>, read at
  the number of identifiers drawn so far. The database calls succeed in the model;
  in the source an error of theirs is logged and swallowed by \<^verbatim>\<open>ensureTeamMembership\<close>.
\<close>

record teamUser =
  tu_id :: string
  teamId :: string
  userId :: string
  role :: string

record database =
  teams :: "string list"
  teamUsers :: "teamUser list"
  uuids_drawn :: nat

text \<open>\<^verbatim>\<open>matchesClaim\<close>.\<close>

definition matchesClaim :: "jsval \<Rightarrow> string \<Rightarrow> bool" where
  "matchesClaim v expectedValue =
     (if nullish v then False
      else
        (case v of
           JArr xs \<Rightarrow> (\<exists>x \<in> set xs. js_String x = expectedValue)
         | JStr s \<Rightarrow>
             if s = expectedValue then True
             else expectedValue \<in> set (map trim (split_on CHR '','' s))
         | _ \<Rightarrow> js_String v = expectedValue))"

text \<open>\<^verbatim>\<open>ensureTeamMembership\<close>.\<close>

definition ensureTeamMembership ::
  "(nat \<Rightarrow> string) \<Rightarrow> database \<Rightarrow> string \<Rightarrow> string \<Rightarrow> string \<Rightarrow> database" where
  "ensureTeamMembership uuid db uid tid rl =
     (if tid \<notin> set (teams db) then db
      else if \<exists>m \<in> set (teamUsers db). userId m = uid \<and> teamId m = tid then db
      else db\<lparr>teamUsers := teamUsers db @
                 [\<lparr>tu_id = uuid (uuids_drawn db), teamId = tid, userId = uid,
                   role = (if rl \<noteq> [] then rl else ''team_member'')\<rparr>],
               uuids_drawn := Suc (uuids_drawn db)\<rparr>)"

text \<open>The inner loop of \<^verbatim>\<open>processOidcTeamMappings\<close>, over the rules of one team: the
  first rule that matches ends it.\<close>

fun process_rules ::
  "(nat \<Rightarrow> string) \<Rightarrow> string \<Rightarrow> claims \<Rightarrow> claims \<Rightarrow> string \<Rightarrow> database \<Rightarrow> TeamClaimRule list \<Rightarrow> database"
where
  "process_rules uuid uid userInfo idTokenClaims tid db [] = db"
| "process_rules uuid uid userInfo idTokenClaims tid db (rule # rules) =
     (if matchesClaim (coalesce (get_prop userInfo (claimField rule))
                                (get_prop idTokenClaims (claimField rule)))
                      (claimValue rule)
      then ensureTeamMembership uuid db uid tid (teamRole rule)
      else process_rules uuid uid userInfo idTokenClaims tid db rules)"

text \<open>The outer loop, over the team identifiers.\<close>

fun process_teams ::
  "(nat \<Rightarrow> string) \<Rightarrow> string \<Rightarrow> claims \<Rightarrow> claims \<Rightarrow> TeamRulesMap \<Rightarrow> database \<Rightarrow> string list \<Rightarrow> database"
where
  "process_teams uuid uid userInfo idTokenClaims allRules db [] = db"
| "process_teams uuid uid userInfo idTokenClaims allRules db (tid # tids) =
     process_teams uuid uid userInfo idTokenClaims allRules
       (process_rules uuid uid userInfo idTokenClaims tid db
          (case map_of allRules tid of None \<Rightarrow> [] | Some rules \<Rightarrow> rules))
       tids"

definition processOidcTeamMappings ::
  "(string \<Rightarrow> TeamRulesMap option) \<Rightarrow> (nat \<Rightarrow> string) \<Rightarrow> redis \<Rightarrow> database \<Rightarrow>
   string \<Rightarrow> claims \<Rightarrow> claims \<Rightarrow> database"
where
  "processOidcTeamMappings parse uuid r db uid userInfo idTokenClaims =
     (if \<not> redis_enabled r then db
      else
        let allRules = getAllTeamRules parse r;
            teamIds = map fst allRules
        in if length teamIds = 0 then db
           else process_teams uuid uid userInfo idTokenClaims allRules db teamIds)"

text \<open>\<^verbatim>\<open>applyTeamMappings\<close> of the bridge module.\<close>

definition applyTeamMappings ::
  "(string \<Rightarrow> TeamRulesMap option) \<Rightarrow> (nat \<Rightarrow> string) \<Rightarrow> redis \<Rightarrow> database \<Rightarrow>
   string \<Rightarrow> claims \<Rightarrow> claims \<Rightarrow> database"
where
  "applyTeamMappings parse uuid r db uid userInfo idTokenClaims =
     processOidcTeamMappings parse uuid r db uid userInfo idTokenClaims"

text \<open>Notions to state the properties of the engine with: a rule matches the claims
  of a login; the rules of a team in a rule map; the user is a member of a team; the
  membership rows of a user in a team.\<close>

definition rule_matches :: "claims \<Rightarrow> claims \<Rightarrow> TeamClaimRule \<Rightarrow> bool" where
  "rule_matches userInfo idTokenClaims rule =
     matchesClaim (coalesce (get_prop userInfo (claimField rule))
                            (get_prop idTokenClaims (claimField rule)))
                  (claimValue rule)"

definition rules_of :: "TeamRulesMap \<Rightarrow> string \<Rightarrow> TeamClaimRule list" where
  "rules_of allRules tid = (case map_of allRules tid of None \<Rightarrow> [] | Some rules \<Rightarrow> rules)"

definition is_member :: "database \<Rightarrow> string \<Rightarrow> string \<Rightarrow> bool" where
  "is_member db uid tid = (\<exists>m \<in> set (teamUsers db). userId m = uid \<and> teamId m = tid)"

definition memberships :: "database \<Rightarrow> string \<Rightarrow> string \<Rightarrow> teamUser list" where
  "memberships db uid tid = filter (\<lambda>m. userId m = uid \<and> teamId m = tid) (teamUsers db)"

text \<open>A membership row \<open>m\<close> is the grant of a team's rules to the user on a database:
  it is a row of the user in that team, the team exists, the user was not a member, and
  the row carries the role of the first rule that matches (\<^verbatim>\<open>team_member\<close> when that
  role is empty).\<close>

definition grant_of ::
  "claims \<Rightarrow> claims \<Rightarrow> string \<Rightarrow> TeamClaimRule list \<Rightarrow> database \<Rightarrow> string \<Rightarrow> teamUser \<Rightarrow> bool" where
  "grant_of userInfo idTokenClaims uid rules db tid m =
     (userId m = uid \<and> teamId m = tid \<and> tid \<in> set (teams db) \<and> \<not> is_member db uid tid \<and>
      (\<exists>rule. find (rule_matches userInfo idTokenClaims) rules = Some rule \<and>
         role m = (if teamRole rule \<noteq> [] then teamRole rule else ''team_member'')))"

text \<open>A team is settled for a user: no rule of the team matches, or the team does not
  exist, or the user is a member.\<close>

definition settled ::
  "claims \<Rightarrow> claims \<Rightarrow> string \<Rightarrow> TeamRulesMap \<Rightarrow> database \<Rightarrow> string \<Rightarrow> bool" where
  "settled userInfo idTokenClaims uid allRules db tid =
     (find (rule_matches userInfo idTokenClaims) (rules_of allRules tid) = None \<or>
      tid \<notin> set (teams db) \<or> is_member db uid tid)"

text \<open>A rule map to evaluate examples on: one team with two rules on the same claim.\<close>

definition demo_rules :: TeamRulesMap where
  "demo_rules =
     [(''t1'',
       [\<lparr>rule_id = ''r1'', claimField = ''groups'', claimValue = ''marketing-analytics'',
          teamRole = ''team_manager'', createdAt = ''2024-01-01T00:00:00.000Z''\<rparr>,
        \<lparr>rule_id = ''r2'', claimField = ''groups'', claimValue = ''staff'',
          teamRole = ''team_member'', createdAt = ''2024-01-02T00:00:00.000Z''\<rparr>])]"

section \<open>Properties of the string and number functions\<close>

lemma split_on_nonempty: "split_on d s \<noteq> []"
  by (induction s) (auto split: list.splits)

lemma split_on_no_sep: "d \<notin> set s \<Longrightarrow> split_on d s = [s]"
  by (induction s) auto

lemma split_on_append: "d \<notin> set a \<Longrightarrow> split_on d (a @ d # b) = a # split_on d b"
  by (induction a) auto

lemma of_char_hex_digit: "k < 16 \<Longrightarrow> (of_char (hex_digit k) :: nat) = (if k < 10 then 48 + k else 87 + k)"
  by (simp add: hex_digit_def)

lemma hex_digit_not_dot: "k < 16 \<Longrightarrow> hex_digit k \<noteq> CHR ''.''"
proof
  assume k: "k < 16" and e: "hex_digit k = CHR ''.''"
  have "(of_char (hex_digit k) :: nat) = of_char CHR ''.''" using e by simp
  with k show False by (simp add: of_char_hex_digit split: if_splits)
qed

lemma hex_byte_no_dot:
  "CHR ''.'' \<notin> set [hex_digit (unat (b::byte) div 16), hex_digit (unat b mod 16)]"
proof -
  have "unat b < 256" using unsigned_less [of b] by simp
  then have hi: "unat b div 16 < 16" by simp
  have lo: "unat b mod 16 < 16" by simp
  show ?thesis
    using hex_digit_not_dot [OF hi] hex_digit_not_dot [OF lo] by auto
qed

lemma hex_of_bytes_no_dot: "CHR ''.'' \<notin> set (hex_of_bytes bs)"
  unfolding hex_of_bytes_def using hex_byte_no_dot by (induction bs) simp_all

lemma of_char_digit36: "k < 36 \<Longrightarrow> (of_char (digit36 k) :: nat) = (if k < 10 then 48 + k else 87 + k)"
  by (simp add: digit36_def)

lemma digit36_val_digit36: "k < 36 \<Longrightarrow> digit36_val (digit36 k) = Some k"
  by (simp add: digit36_val_def of_char_digit36 Let_def)

lemma digit36_not_dot: "k < 36 \<Longrightarrow> digit36 k \<noteq> CHR ''.''"
proof
  assume k: "k < 36" and e: "digit36 k = CHR ''.''"
  have "(of_char (digit36 k) :: nat) = of_char CHR ''.''" using e by simp
  with k show False by (simp add: of_char_digit36 split: if_splits)
qed

lemma nat_to_base36_small: "n < 36 \<Longrightarrow> nat_to_base36 n = [digit36 n]"
  by (subst nat_to_base36.simps) simp

lemma nat_to_base36_large: "\<not> n < 36 \<Longrightarrow> nat_to_base36 n = nat_to_base36 (n div 36) @ [digit36 (n mod 36)]"
  by (subst nat_to_base36.simps) simp

lemma nat_to_base36_digits: "c \<in> set (nat_to_base36 n) \<Longrightarrow> \<exists>k<36. c = digit36 k"
proof (induction n arbitrary: c rule: nat_to_base36.induct)
  case (1 n)
  show ?case
  proof (cases "n < 36")
    case True
    with 1(2) have "c = digit36 n" by (simp add: nat_to_base36_small)
    with True show ?thesis by blast
  next
    case False
    with 1(2) have "c \<in> set (nat_to_base36 (n div 36)) \<or> c = digit36 (n mod 36)"
      by (auto simp: nat_to_base36_large [of n])
    then show ?thesis
    proof
      assume "c \<in> set (nat_to_base36 (n div 36))"
      with 1(1) False show ?thesis by blast
    next
      assume "c = digit36 (n mod 36)"
      moreover have "n mod 36 < 36" by simp
      ultimately show ?thesis by blast
    qed
  qed
qed

lemma nat_to_base36_nonempty: "nat_to_base36 n \<noteq> []"
  by (cases "n < 36") (simp_all add: nat_to_base36_small nat_to_base36_large [of n])

lemma base36_value_snoc: "base36_value (ds @ [c]) = base36_value ds * 36 + the (digit36_val c)"
  by (simp add: base36_value_def)

lemma base36_value_nat_to_base36: "base36_value (nat_to_base36 n) = n"
proof (induction n rule: nat_to_base36.induct)
  case (1 n)
  show ?case
  proof (cases "n < 36")
    case True
    then show ?thesis
      by (simp add: nat_to_base36_small base36_value_def digit36_val_digit36)
  next
    case False
    have "n mod 36 < 36" by simp
    then have "the (digit36_val (digit36 (n mod 36))) = n mod 36"
      by (simp only: digit36_val_digit36 option.sel)
    with False 1 show ?thesis
      by (simp add: nat_to_base36_large [of n] base36_value_snoc)
  qed
qed

lemma ws_len_first: "c \<notin> set (map hd white_space) \<Longrightarrow> ws_len (c # cs) = 0"
  by (simp add: ws_len_def white_space_def)

lemma trimStart_first: "c \<notin> set (map hd white_space) \<Longrightarrow> trimStart (c # cs) = c # cs"
  by (subst trimStart.simps) (simp add: ws_len_first)

lemma digit36_not_ws: "k < 36 \<Longrightarrow> digit36 k \<notin> set (map hd white_space)"
proof
  assume k: "k < 36" and e: "digit36 k \<in> set (map hd white_space)"
  then have "(of_char (digit36 k) :: nat) \<in> of_char ` set (map hd white_space)" by blast
  with k show False by (simp add: of_char_digit36 white_space_def split: if_splits)
qed

lemma digit36_is_digit: "k < 36 \<Longrightarrow> is_digit36 (digit36 k)"
  by (simp add: is_digit36_def digit36_val_digit36)

lemma digit36_not_sign: "k < 36 \<Longrightarrow> digit36 k \<noteq> CHR ''-'' \<and> digit36 k \<noteq> CHR ''+''"
proof -
  assume k: "k < 36"
  have "(of_char (digit36 k) :: nat) \<noteq> of_char CHR ''-'' \<and> (of_char (digit36 k) :: nat) \<noteq> of_char CHR ''+''"
    using k by (simp add: of_char_digit36)
  then show ?thesis by auto
qed

lemma takeWhile_nat_to_base36: "takeWhile is_digit36 (nat_to_base36 n) = nat_to_base36 n"
proof -
  have "\<forall>c \<in> set (nat_to_base36 n). is_digit36 c"
    using nat_to_base36_digits digit36_is_digit by blast
  then show ?thesis by simp
qed

lemma hd_nat_to_base36: "\<exists>k<36. hd (nat_to_base36 n) = digit36 k"
  using nat_to_base36_digits [of "hd (nat_to_base36 n)" n] nat_to_base36_nonempty [of n]
  by simp

lemma parseInt36_nat: "parseInt36 (nat_to_base36 n) = Some (int n)"
proof -
  obtain k where k: "k < 36" and h: "hd (nat_to_base36 n) = digit36 k"
    using hd_nat_to_base36 by blast
  obtain c cs where cs: "nat_to_base36 n = c # cs"
    using nat_to_base36_nonempty [of n] by (cases "nat_to_base36 n") auto
  with h have c: "c = digit36 k" by simp
  have t: "trimStart (nat_to_base36 n) = nat_to_base36 n"
    unfolding cs c using digit36_not_ws [OF k] by (rule trimStart_first)
  have ns: "hd (nat_to_base36 n) \<noteq> CHR ''-''" "hd (nat_to_base36 n) \<noteq> CHR ''+''"
    using digit36_not_sign [OF k] h by simp_all
  show ?thesis
    unfolding parseInt36_def t
    by (simp add: ns takeWhile_nat_to_base36 nat_to_base36_nonempty base36_value_nat_to_base36)
qed

lemma parseInt36_toString36: "parseInt36 (toString36 n) = Some n"
proof (cases "n < 0")
  case False
  then show ?thesis by (simp add: toString36_def parseInt36_nat)
next
  case True
  have ws: "CHR ''-'' \<notin> set (map hd white_space)"
    by (simp add: white_space_def)
  have t: "trimStart (CHR ''-'' # nat_to_base36 (nat (- n))) = CHR ''-'' # nat_to_base36 (nat (- n))"
    using ws by (rule trimStart_first)
  from True show ?thesis
    unfolding toString36_def parseInt36_def
    by (simp add: t takeWhile_nat_to_base36 nat_to_base36_nonempty base36_value_nat_to_base36)
qed

lemma nat_to_base36_no_dot: "CHR ''.'' \<notin> set (nat_to_base36 n)"
proof
  assume a: "CHR ''.'' \<in> set (nat_to_base36 n)"
  from nat_to_base36_digits [OF a] obtain k where "k < 36" "CHR ''.'' = digit36 k" by auto
  with digit36_not_dot [of k] show False by simp
qed

lemma toString36_no_dot: "CHR ''.'' \<notin> set (toString36 n)"
  by (simp add: toString36_def nat_to_base36_no_dot)

lemma split_on_three:
  assumes "d \<notin> set a" "d \<notin> set b" "d \<notin> set c"
  shows "split_on d ((a @ [d] @ b) @ [d] @ c) = [a, b, c]"
proof -
  have "split_on d ((a @ [d] @ b) @ [d] @ c) = split_on d (a @ d # (b @ d # c))" by simp
  also have "\<dots> = a # split_on d (b @ d # c)" using assms(1) by (rule split_on_append)
  also have "split_on d (b @ d # c) = b # split_on d c" using assms(2) by (rule split_on_append)
  also have "split_on d c = [c]" using assms(3) by (rule split_on_no_sep)
  finally show ?thesis .
qed

lemma state_signature_no_dot: "CHR ''.'' \<notin> set (state_signature mac k p)"
  unfolding state_signature_def using hex_of_bytes_no_dot [of "mac k p"]
  by (auto dest: in_set_takeD)

lemma split_generateState:
  "split_on CHR ''.'' (generateState mac random now appSecret) =
     [toString36 now, hex_of_bytes random,
      state_signature mac appSecret (toString36 now @ ''.'' @ hex_of_bytes random)]"
  unfolding generateState_def Let_def
  by (rule split_on_three) (rule toString36_no_dot hex_of_bytes_no_dot state_signature_no_dot)+

text \<open>
  C1. A state that \<^verbatim>\<open>generateState\<close> built at time \<open>now\<close> with a secret verifies
  with the same secret and the default maximum age at every time \<open>now'\<close> no more than
  that age after \<open>now\<close>, in particular at \<open>now\<close> itself: whatever the secret, the
  random bytes and the MAC function.
\<close>

theorem verifyState_generateState:
  assumes "now' - now \<le> default_maxAgeMs"
  shows "verifyState mac now' (generateState mac random now appSecret) appSecret default_maxAgeMs"
  using assms
  by (simp add: verifyState_def split_generateState parseInt36_toString36)

theorem verifyState_generateState_witness:
  "(1700000000123::int) - 1700000000000 \<le> default_maxAgeMs \<and>
   verifyState (\<lambda>k m. [0xAB, 0xCD]) 1700000000123
     (generateState (\<lambda>k m. [0xAB, 0xCD]) [0x01, 0xFF] 1700000000000 ''secret'')
     ''secret'' default_maxAgeMs"
proof -
  have h: "(1700000000123::int) - 1700000000000 \<le> default_maxAgeMs"
    by (simp add: default_maxAgeMs_def)
  from h verifyState_generateState [OF h] show ?thesis by blast
qed

text \<open>
  C2. \<^verbatim>\<open>verifyState\<close> is a total function to the booleans. It is false when the
  state does not split at the dots into three parts; when the third part is not the
  first 16 hexadecimal characters of the MAC of the first two parts; when the clock
  minus the decoded time stamp exceeds the maximum age; and so, for a negative maximum
  age, for every state whose time stamp is not in the future.
\<close>

theorem verifyState_rejects:
  "(length (split_on CHR ''.'' state) \<noteq> 3 \<longrightarrow> \<not> verifyState mac now state appSecret maxAgeMs) \<and>
   (split_on CHR ''.'' state = [ts, nonce, sig] \<and>
      sig \<noteq> take 16 (hex_of_bytes (mac appSecret (ts @ ''.'' @ nonce)))
      \<longrightarrow> \<not> verifyState mac now state appSecret maxAgeMs) \<and>
   (split_on CHR ''.'' state = [ts, nonce, sig] \<and> parseInt36 ts = Some timestamp \<and>
      now - timestamp > maxAgeMs
      \<longrightarrow> \<not> verifyState mac now state appSecret maxAgeMs) \<and>
   (split_on CHR ''.'' state = [ts, nonce, sig] \<and> parseInt36 ts = Some timestamp \<and>
      maxAgeMs < 0 \<and> timestamp \<le> now
      \<longrightarrow> \<not> verifyState mac now state appSecret maxAgeMs)"
  by (auto simp: verifyState_def state_signature_def Let_def)

lemma trimStart_a: "trimStart ''a'' = ''a''"
  by (rule trimStart_first) (simp add: white_space_def)

lemma parse_a: "parseInt36 ''a'' = Some 10"
  by (simp add: parseInt36_def trimStart_a is_digit36_def digit36_val_def base36_value_def)

theorem verifyState_rejects_witness:
  "\<not> verifyState (\<lambda>k m. [0xAB]) 1000 ''a.b'' ''k'' 5 \<and>
   \<not> verifyState (\<lambda>k m. [0xAB]) 1000 ''a.b.cd'' ''k'' 5 \<and>
   \<not> verifyState (\<lambda>k m. [0xAB]) 1000 ''a.b.ab'' ''k'' 5 \<and>
   \<not> verifyState (\<lambda>k m. [0xAB]) 1000 ''a.b.ab'' ''k'' (- 1)"
  using verifyState_rejects [of "''a.b''" "\<lambda>k m. [0xAB]" 1000 "''k''" 5 "''a''" "''b''" "''cd''" 10]
    verifyState_rejects [of "''a.b.cd''" "\<lambda>k m. [0xAB]" 1000 "''k''" 5 "''a''" "''b''" "''cd''" 10]
    verifyState_rejects [of "''a.b.ab''" "\<lambda>k m. [0xAB]" 1000 "''k''" 5 "''a''" "''b''" "''ab''" 10]
    verifyState_rejects [of "''a.b.ab''" "\<lambda>k m. [0xAB]" 1000 "''k''" "- 1" "''a''" "''b''" "''ab''" 10]
  by (simp add: parse_a hex_of_bytes_def hex_digit_def)

text \<open>A state with a matching signature whose first part holds no base-36 digit has
  NaN for its time stamp; the comparison of its age is then false and the state is
  accepted, whatever the maximum age.\<close>

lemma verifyState_without_time_stamp:
  assumes "split_on CHR ''.'' state = [ts, nonce, sig]"
    and "sig = state_signature mac appSecret (ts @ ''.'' @ nonce)"
    and "parseInt36 ts = None"
  shows "verifyState mac now state appSecret maxAgeMs"
  using assms by (simp add: verifyState_def)

section \<open>Evaluation of the string functions on examples\<close>

lemma hex_ab: "hex_of_bytes [0xAB] = ''ab''"
  by (simp add: hex_of_bytes_def hex_digit_def char_of_eq_iff)

lemma sig_ab: "state_signature (\<lambda>k m. [0xAB]) k p = ''ab''"
  by (simp add: state_signature_def hex_ab)

lemma dec42: "nat_to_decimal 42 = ''42''"
  by (simp add: nat_to_decimal.simps [of 42] nat_to_decimal.simps [of 4] char_of_eq_iff)

lemma trimStart_space: "trimStart (CHR '' '' # cs) = trimStart cs"
  by (subst trimStart.simps) (simp add: ws_len_def white_space_def)

lemma ws_len_end_last: "c \<notin> set (map last white_space) \<Longrightarrow> ws_len_end (xs @ [c]) = 0"
  by (simp add: ws_len_end_def white_space_def)

lemma trimEnd_last:
  assumes "s \<noteq> []" and "last s \<notin> set (map last white_space)"
  shows "trimEnd s = s"
proof -
  from assms(1) have "s = butlast s @ [last s]" by simp
  then have "ws_len_end s = 0"
    using ws_len_end_last [OF assms(2), of "butlast s"] by simp
  then show ?thesis by (subst trimEnd.simps) simp
qed

lemma trim_plain:
  assumes "c \<notin> set (map hd white_space)" and "last (c # cs) \<notin> set (map last white_space)"
  shows "trim (c # cs) = c # cs"
  unfolding trim_def trimStart_first [OF assms(1)] using assms(2) by (intro trimEnd_last) simp_all

lemma trim_ex: "trim '' umami-admin'' = ''umami-admin''"
proof -
  have "trimStart '' umami-admin'' = trimStart ''umami-admin''" by (rule trimStart_space)
  also have "\<dots> = ''umami-admin''" by (rule trimStart_first) (simp add: white_space_def)
  finally have a: "trimStart '' umami-admin'' = ''umami-admin''" .
  have "trimEnd ''umami-admin'' = ''umami-admin''"
    by (rule trimEnd_last) (simp_all add: white_space_def)
  with a show ?thesis by (simp add: trim_def)
qed

lemma trim_viewer: "trim ''viewer'' = ''viewer''"
  by (rule trim_plain) (simp_all add: white_space_def)

lemma trim_editor: "trim '' editor'' = ''editor''"
proof -
  have "trimStart '' editor'' = trimStart ''editor''" by (rule trimStart_space)
  also have "\<dots> = ''editor''" by (rule trimStart_first) (simp add: white_space_def)
  finally have a: "trimStart '' editor'' = ''editor''" .
  have "trimEnd ''editor'' = ''editor''"
    by (rule trimEnd_last) (simp_all add: white_space_def)
  with a show ?thesis by (simp add: trim_def)
qed

section \<open>Properties of the role mapper\<close>

text \<open>
  C3, as the claim states it, fails: with an empty admin group configured and the empty
  string as the claim, the claim equals the admin group, so the specification's wording
  gives \<open>admin\<close>; the source treats every falsy claim value as not found and gives
  \<open>user\<close>.
\<close>

theorem mapOidcRole_empty_string_counterexample:
  "mapOidcRole
     \<lparr>enabled = True, clientId = ''id'', clientSecret = ''secret'', issuerUrl = ''https://idp'',
      scopes = ''openid'', redirectUri = [], roleClaim = ''groups'', adminGroup = [],
      autoCreate = True, displayName = ''SSO''\<rparr>
     [(''sub'', JStr ''u1''), (''groups'', JStr [])] [] = ''user'' \<and>
   spec_mapRole
     \<lparr>enabled = True, clientId = ''id'', clientSecret = ''secret'', issuerUrl = ''https://idp'',
      scopes = ''openid'', redirectUri = [], roleClaim = ''groups'', adminGroup = [],
      autoCreate = True, displayName = ''SSO''\<rparr>
     [(''sub'', JStr ''u1''), (''groups'', JStr [])] [] = ''admin''"
  by (simp add: mapOidcRole_def spec_mapRole_def get_prop_def coalesce_def)

text \<open>
  C3, amended. \<^verbatim>\<open>mapOidcRole\<close> returns \<open>admin\<close> or \<open>user\<close>. The claim value is
  read from the user info and, when that is \<^verbatim>\<open>null\<close> or \<^verbatim>\<open>undefined\<close>, from the
  identity claims. No claim gives \<open>user\<close>; an array gives \<open>admin\<close> exactly when the
  admin group is one of its elements; a non-empty string gives \<open>admin\<close> exactly when
  it is the admin group or the admin group is a trimmed element of its split at commas;
  the empty string gives \<open>user\<close>; a boolean, a number and an object give \<open>user\<close>.
\<close>

theorem mapOidcRole_cases:
  assumes "v = coalesce (get_prop userInfo (roleClaim cfg)) (get_prop idTokenClaims (roleClaim cfg))"
    and "r = mapOidcRole cfg userInfo idTokenClaims"
  shows "(r = ''admin'' \<or> r = ''user'') \<and>
    (nullish v \<longrightarrow> r = ''user'') \<and>
    (v = JArr xs \<longrightarrow> (r = ''admin'' \<longleftrightarrow> JStr (adminGroup cfg) \<in> set xs)) \<and>
    (v = JStr s \<and> s \<noteq> [] \<longrightarrow>
       (r = ''admin'' \<longleftrightarrow>
          s = adminGroup cfg \<or> adminGroup cfg \<in> set (map trim (split_on CHR '','' s)))) \<and>
    (v = JStr [] \<longrightarrow> r = ''user'') \<and>
    (v = JBool b \<longrightarrow> r = ''user'') \<and>
    (v = JNum n \<longrightarrow> r = ''user'') \<and>
    (v = JObj kvs \<longrightarrow> r = ''user'')"
proof -
  let ?c = "coalesce (get_prop userInfo (roleClaim cfg)) (get_prop idTokenClaims (roleClaim cfg))"
  have r: "r = (if \<not> truthy ?c then ''user''
         else (case ?c of
              JArr xs \<Rightarrow> if JStr (adminGroup cfg) \<in> set xs then ''admin'' else ''user''
            | JStr s \<Rightarrow>
                if s = adminGroup cfg then ''admin''
                else if adminGroup cfg \<in> set (map trim (split_on CHR '','' s)) then ''admin''
                else ''user''
            | _ \<Rightarrow> ''user''))"
    unfolding assms(2) mapOidcRole_def Let_def ..
  show ?thesis
    unfolding r assms(1) [symmetric]
    by (cases v) auto
qed

theorem mapOidcRole_cases_witness:
  "mapOidcRole
     \<lparr>enabled = True, clientId = ''id'', clientSecret = ''secret'', issuerUrl = ''https://idp'',
      scopes = ''openid'', redirectUri = [], roleClaim = ''groups'', adminGroup = ''umami-admin'',
      autoCreate = True, displayName = ''SSO''\<rparr>
     [(''sub'', JStr ''u1''), (''groups'', JArr [JStr ''users'', JStr ''umami-admin''])] [] = ''admin'' \<and>
   mapOidcRole
     \<lparr>enabled = True, clientId = ''id'', clientSecret = ''secret'', issuerUrl = ''https://idp'',
      scopes = ''openid'', redirectUri = [], roleClaim = ''groups'', adminGroup = ''umami-admin'',
      autoCreate = True, displayName = ''SSO''\<rparr>
     [(''sub'', JStr ''u1'')] [(''groups'', JStr ''viewer, umami-admin, editor'')] = ''admin'' \<and>
   mapOidcRole
     \<lparr>enabled = True, clientId = ''id'', clientSecret = ''secret'', issuerUrl = ''https://idp'',
      scopes = ''openid'', redirectUri = [], roleClaim = ''groups'', adminGroup = ''umami-admin'',
      autoCreate = True, displayName = ''SSO''\<rparr>
     [(''sub'', JStr ''u1''), (''groups'', JNum 42)] [] = ''user'' \<and>
   mapOidcRole
     \<lparr>enabled = True, clientId = ''id'', clientSecret = ''secret'', issuerUrl = ''https://idp'',
      scopes = ''openid'', redirectUri = [], roleClaim = ''groups'', adminGroup = ''umami-admin'',
      autoCreate = True, displayName = ''SSO''\<rparr>
     [(''sub'', JStr ''u1'')] [] = ''user''"
proof -
  have r0: "mapOidcRole
     \<lparr>enabled = True, clientId = ''id'', clientSecret = ''secret'', issuerUrl = ''https://idp'',
      scopes = ''openid'', redirectUri = [], roleClaim = ''groups'', adminGroup = ''umami-admin'',
      autoCreate = True, displayName = ''SSO''\<rparr>
     [(''sub'', JStr ''u1''), (''groups'', JArr [JStr ''users'', JStr ''umami-admin''])] [] = ''admin''"
    using mapOidcRole_cases [OF refl refl,
      where userInfo = "[(''sub'', JStr ''u1''), (''groups'', JArr [JStr ''users'', JStr ''umami-admin''])]" and idTokenClaims = "[]"
      and cfg = "\<lparr>enabled = True, clientId = ''id'', clientSecret = ''secret'', issuerUrl = ''https://idp'',
      scopes = ''openid'', redirectUri = [], roleClaim = ''groups'', adminGroup = ''umami-admin'',
      autoCreate = True, displayName = ''SSO''\<rparr>"
      and xs = "[JStr ''users'', JStr ''umami-admin'']" and s = "[]" and n = 0 and b = True and kvs = "[]"]
    by (simp add: get_prop_def coalesce_def trim_viewer trim_ex trim_editor)
  have r1: "mapOidcRole
     \<lparr>enabled = True, clientId = ''id'', clientSecret = ''secret'', issuerUrl = ''https://idp'',
      scopes = ''openid'', redirectUri = [], roleClaim = ''groups'', adminGroup = ''umami-admin'',
      autoCreate = True, displayName = ''SSO''\<rparr>
     [(''sub'', JStr ''u1'')] [(''groups'', JStr ''viewer, umami-admin, editor'')] = ''admin''"
    using mapOidcRole_cases [OF refl refl,
      where userInfo = "[(''sub'', JStr ''u1'')]" and idTokenClaims = "[(''groups'', JStr ''viewer, umami-admin, editor'')]"
      and cfg = "\<lparr>enabled = True, clientId = ''id'', clientSecret = ''secret'', issuerUrl = ''https://idp'',
      scopes = ''openid'', redirectUri = [], roleClaim = ''groups'', adminGroup = ''umami-admin'',
      autoCreate = True, displayName = ''SSO''\<rparr>"
      and xs = "[]" and s = "''viewer, umami-admin, editor''" and n = 0 and b = True and kvs = "[]"]
    by (simp add: get_prop_def coalesce_def trim_viewer trim_ex trim_editor)
  have r2: "mapOidcRole
     \<lparr>enabled = True, clientId = ''id'', clientSecret = ''secret'', issuerUrl = ''https://idp'',
      scopes = ''openid'', redirectUri = [], roleClaim = ''groups'', adminGroup = ''umami-admin'',
      autoCreate = True, displayName = ''SSO''\<rparr>
     [(''sub'', JStr ''u1''), (''groups'', JNum 42)] [] = ''user''"
    using mapOidcRole_cases [OF refl refl,
      where userInfo = "[(''sub'', JStr ''u1''), (''groups'', JNum 42)]" and idTokenClaims = "[]"
      and cfg = "\<lparr>enabled = True, clientId = ''id'', clientSecret = ''secret'', issuerUrl = ''https://idp'',
      scopes = ''openid'', redirectUri = [], roleClaim = ''groups'', adminGroup = ''umami-admin'',
      autoCreate = True, displayName = ''SSO''\<rparr>"
      and xs = "[]" and s = "[]" and n = 42 and b = True and kvs = "[]"]
    by (simp add: get_prop_def coalesce_def trim_viewer trim_ex trim_editor)
  have r3: "mapOidcRole
     \<lparr>enabled = True, clientId = ''id'', clientSecret = ''secret'', issuerUrl = ''https://idp'',
      scopes = ''openid'', redirectUri = [], roleClaim = ''groups'', adminGroup = ''umami-admin'',
      autoCreate = True, displayName = ''SSO''\<rparr>
     [(''sub'', JStr ''u1'')] [] = ''user''"
    using mapOidcRole_cases [OF refl refl,
      where userInfo = "[(''sub'', JStr ''u1'')]" and idTokenClaims = "[]"
      and cfg = "\<lparr>enabled = True, clientId = ''id'', clientSecret = ''secret'', issuerUrl = ''https://idp'',
      scopes = ''openid'', redirectUri = [], roleClaim = ''groups'', adminGroup = ''umami-admin'',
      autoCreate = True, displayName = ''SSO''\<rparr>"
      and xs = "[]" and s = "[]" and n = 0 and b = True and kvs = "[]"]
    by (simp add: get_prop_def coalesce_def trim_viewer trim_ex trim_editor)
  from r0 r1 r2 r3 show ?thesis by blast
qed

text \<open>Apart from the empty string as claim value, the source and the specification's
  wording agree on every input.\<close>

lemma mapOidcRole_refines_spec_nonempty:
  "coalesce (get_prop userInfo (roleClaim cfg)) (get_prop idTokenClaims (roleClaim cfg)) \<noteq> JStr []
   \<Longrightarrow> mapOidcRole cfg userInfo idTokenClaims = spec_mapRole cfg userInfo idTokenClaims"
  unfolding mapOidcRole_def spec_mapRole_def Let_def
  by (cases "coalesce (get_prop userInfo (roleClaim cfg)) (get_prop idTokenClaims (roleClaim cfg))")
     auto

section \<open>Properties of the callback endpoint\<close>

lemma msgs_differ: "msg_state_mismatch \<noteq> msg_state_verification_failed"
  by (simp add: msg_state_mismatch_def msg_state_verification_failed_def)

lemma callback_GET_state_checks:
  assumes "enabled cfg" and "\<not> present (q_error req)" and "present (q_code req)"
    and "q_state req = Some state" and "state \<noteq> []"
  shows "callback_GET mac now cfg baseUrl appSecret rest req =
     (if cookie_oidc_state req \<noteq> Some state
      then RedirectLogin baseUrl (Some msg_state_mismatch)
      else if \<not> verifyState mac now state appSecret default_maxAgeMs
      then RedirectLogin baseUrl (Some msg_state_verification_failed)
      else (case rest of
              Inl err \<Rightarrow> RedirectLogin baseUrl
                (Some (if message err \<noteq> [] then message err else ''OIDC authentication failed''))
            | Inr r \<Rightarrow> Completed r))"
  using assms
  by (auto simp: callback_GET_def verify_csrf_state_def present_def
      msg_state_mismatch_def msg_state_verification_failed_def split: option.splits)

lemma verifyState_bad_signature_example:
  "\<not> verifyState (\<lambda>k m. [0xAB]) 1000 ''a.b.cd'' ''k'' default_maxAgeMs"
  by (simp add: verifyState_def sig_ab)

text \<open>
  C4, as the claim states it, fails: a state that differs from the saved cookie and a
  state with a bad signature are answered with two different error messages, so the
  login page learns which of the two checks failed.
\<close>

theorem callback_csrf_messages_counterexample:
  "callback_GET (\<lambda>k m. [0xAB]) 1000
     \<lparr>enabled = True, clientId = ''id'', clientSecret = ''secret'', issuerUrl = ''https://idp'',
      scopes = ''openid'', redirectUri = [], roleClaim = ''groups'', adminGroup = ''umami-admin'',
      autoCreate = True, displayName = ''SSO''\<rparr>
     ''https://app'' ''k'' (Inr ())
     \<lparr>q_code = Some ''c'', q_state = Some ''a.b.cd'', q_error = None, q_error_description = None,
      cookie_oidc_state = Some ''x.y.zz'', cookie_oidc_nonce = None, cookie_oidc_redirect_uri = None\<rparr>
     = RedirectLogin ''https://app'' (Some msg_state_mismatch) \<and>
   callback_GET (\<lambda>k m. [0xAB]) 1000
     \<lparr>enabled = True, clientId = ''id'', clientSecret = ''secret'', issuerUrl = ''https://idp'',
      scopes = ''openid'', redirectUri = [], roleClaim = ''groups'', adminGroup = ''umami-admin'',
      autoCreate = True, displayName = ''SSO''\<rparr>
     ''https://app'' ''k'' (Inr ())
     \<lparr>q_code = Some ''c'', q_state = Some ''a.b.cd'', q_error = None, q_error_description = None,
      cookie_oidc_state = Some ''a.b.cd'', cookie_oidc_nonce = None, cookie_oidc_redirect_uri = None\<rparr>
     = RedirectLogin ''https://app'' (Some msg_state_verification_failed) \<and>
   msg_state_mismatch \<noteq> msg_state_verification_failed"
  using verifyState_bad_signature_example msgs_differ
  by (simp add: callback_GET_state_checks [where state = "''a.b.cd''"] present_def)

text \<open>
  C4, amended. On an enabled configuration, with no error parameter and with a code and
  a state in the query, every failure of the state check redirects to the login page
  with an error message: the message of a mismatch when the saved cookie is missing or
  differs from the state, and one other message when the cookie matches and
  \<^verbatim>\<open>verifyState\<close> rejects the state, the same for a bad signature and for an expired
  state.
\<close>

theorem callback_csrf_failures:
  assumes "enabled cfg" and "\<not> present (q_error req)" and "present (q_code req)"
    and "q_state req = Some state" and "state \<noteq> []"
  shows
    "(cookie_oidc_state req \<noteq> Some state \<longrightarrow>
        callback_GET mac now cfg baseUrl appSecret rest req
          = RedirectLogin baseUrl (Some msg_state_mismatch)) \<and>
     (cookie_oidc_state req = Some state \<and> \<not> verifyState mac now state appSecret default_maxAgeMs \<longrightarrow>
        callback_GET mac now cfg baseUrl appSecret rest req
          = RedirectLogin baseUrl (Some msg_state_verification_failed))"
  by (simp add: callback_GET_state_checks [OF assms])

lemma verifyState_expired_example:
  "\<not> verifyState (\<lambda>k m. [0xAB]) 1000000 ''a.b.ab'' ''k'' default_maxAgeMs"
  by (simp add: verifyState_def sig_ab parse_a default_maxAgeMs_def)

theorem callback_csrf_failures_witness:
  "callback_GET (\<lambda>k m. [0xAB]) 1000
     \<lparr>enabled = True, clientId = ''id'', clientSecret = ''secret'', issuerUrl = ''https://idp'',
      scopes = ''openid'', redirectUri = [], roleClaim = ''groups'', adminGroup = ''umami-admin'',
      autoCreate = True, displayName = ''SSO''\<rparr>
     ''https://app'' ''k'' (Inr ())
     \<lparr>q_code = Some ''c'', q_state = Some ''a.b.cd'', q_error = None, q_error_description = None,
      cookie_oidc_state = None, cookie_oidc_nonce = None, cookie_oidc_redirect_uri = None\<rparr>
     = RedirectLogin ''https://app'' (Some msg_state_mismatch) \<and>
   callback_GET (\<lambda>k m. [0xAB]) 1000
     \<lparr>enabled = True, clientId = ''id'', clientSecret = ''secret'', issuerUrl = ''https://idp'',
      scopes = ''openid'', redirectUri = [], roleClaim = ''groups'', adminGroup = ''umami-admin'',
      autoCreate = True, displayName = ''SSO''\<rparr>
     ''https://app'' ''k'' (Inr ())
     \<lparr>q_code = Some ''c'', q_state = Some ''a.b.cd'', q_error = None, q_error_description = None,
      cookie_oidc_state = Some ''a.b.cd'', cookie_oidc_nonce = None, cookie_oidc_redirect_uri = None\<rparr>
     = RedirectLogin ''https://app'' (Some msg_state_verification_failed) \<and>
   callback_GET (\<lambda>k m. [0xAB]) 1000000
     \<lparr>enabled = True, clientId = ''id'', clientSecret = ''secret'', issuerUrl = ''https://idp'',
      scopes = ''openid'', redirectUri = [], roleClaim = ''groups'', adminGroup = ''umami-admin'',
      autoCreate = True, displayName = ''SSO''\<rparr>
     ''https://app'' ''k'' (Inr ())
     \<lparr>q_code = Some ''c'', q_state = Some ''a.b.ab'', q_error = None, q_error_description = None,
      cookie_oidc_state = Some ''a.b.ab'', cookie_oidc_nonce = None, cookie_oidc_redirect_uri = None\<rparr>
     = RedirectLogin ''https://app'' (Some msg_state_verification_failed)"
  using verifyState_bad_signature_example verifyState_expired_example
    callback_csrf_failures [where state = "''a.b.cd''" and mac = "\<lambda>k m. [0xAB]" and now = 1000
      and appSecret = "''k''" and baseUrl = "''https://app''" and rest = "Inr ()"
      and cfg = "\<lparr>enabled = True, clientId = ''id'', clientSecret = ''secret'', issuerUrl = ''https://idp'',
      scopes = ''openid'', redirectUri = [], roleClaim = ''groups'', adminGroup = ''umami-admin'',
      autoCreate = True, displayName = ''SSO''\<rparr>"
      and req = "\<lparr>q_code = Some ''c'', q_state = Some ''a.b.cd'', q_error = None, q_error_description = None,
      cookie_oidc_state = None, cookie_oidc_nonce = None, cookie_oidc_redirect_uri = None\<rparr>"]
    callback_csrf_failures [where state = "''a.b.cd''" and mac = "\<lambda>k m. [0xAB]" and now = 1000
      and appSecret = "''k''" and baseUrl = "''https://app''" and rest = "Inr ()"
      and cfg = "\<lparr>enabled = True, clientId = ''id'', clientSecret = ''secret'', issuerUrl = ''https://idp'',
      scopes = ''openid'', redirectUri = [], roleClaim = ''groups'', adminGroup = ''umami-admin'',
      autoCreate = True, displayName = ''SSO''\<rparr>"
      and req = "\<lparr>q_code = Some ''c'', q_state = Some ''a.b.cd'', q_error = None, q_error_description = None,
      cookie_oidc_state = Some ''a.b.cd'', cookie_oidc_nonce = None, cookie_oidc_redirect_uri = None\<rparr>"]
    callback_csrf_failures [where state = "''a.b.ab''" and mac = "\<lambda>k m. [0xAB]" and now = 1000000
      and appSecret = "''k''" and baseUrl = "''https://app''" and rest = "Inr ()"
      and cfg = "\<lparr>enabled = True, clientId = ''id'', clientSecret = ''secret'', issuerUrl = ''https://idp'',
      scopes = ''openid'', redirectUri = [], roleClaim = ''groups'', adminGroup = ''umami-admin'',
      autoCreate = True, displayName = ''SSO''\<rparr>"
      and req = "\<lparr>q_code = Some ''c'', q_state = Some ''a.b.ab'', q_error = None, q_error_description = None,
      cookie_oidc_state = Some ''a.b.ab'', cookie_oidc_nonce = None, cookie_oidc_redirect_uri = None\<rparr>"]
  by (simp add: present_def)

section \<open>Properties of the claim decoder\<close>

text \<open>
  C5. Where the platform's decoder undoes the encoding of the serialised claims object
  and its parser reads the serialisation back, a token of three dot-free segments with
  that encoding in the middle decodes to exactly the object, whatever its structure. A
  token that does not split into three segments, or whose middle segment does not
  parse, decodes to the empty object; the function is total.
\<close>

theorem parseIdTokenClaims_roundtrip:
  "(CHR ''.'' \<notin> set header \<and> CHR ''.'' \<notin> set signature \<and>
      CHR ''.'' \<notin> set (encode (stringify obj)) \<and>
      decode (encode (stringify obj)) = stringify obj \<and> parse (stringify obj) = Some obj
    \<longrightarrow> parseIdTokenClaims decode parse
          (header @ ''.'' @ encode (stringify obj) @ ''.'' @ signature) = obj) \<and>
   (length (split_on CHR ''.'' token) \<noteq> 3
    \<longrightarrow> parseIdTokenClaims decode parse token = JObj []) \<and>
   (split_on CHR ''.'' token = [h, p, sg] \<and> parse (decode p) = None
    \<longrightarrow> parseIdTokenClaims decode parse token = JObj [])"
proof -
  have "parseIdTokenClaims decode parse
          (header @ ''.'' @ encode (stringify obj) @ ''.'' @ signature) = obj"
    if a: "CHR ''.'' \<notin> set header" "CHR ''.'' \<notin> set signature"
       "CHR ''.'' \<notin> set (encode (stringify obj))"
       and d: "decode (encode (stringify obj)) = stringify obj"
       and p: "parse (stringify obj) = Some obj"
  proof -
    have "split_on CHR ''.'' ((header @ [CHR ''.''] @ encode (stringify obj)) @ [CHR ''.''] @ signature)
            = [header, encode (stringify obj), signature]"
      using a(1) a(3) a(2) by (rule split_on_three)
    then show ?thesis by (simp add: parseIdTokenClaims_def d p)
  qed
  then show ?thesis by (auto simp: parseIdTokenClaims_def)
qed

theorem parseIdTokenClaims_roundtrip_witness:
  "parseIdTokenClaims
     (\<lambda>s. if s = ''eyJncm91cHMiOltdfQ'' then ''{\"groups\":[]}'' else [])
     (\<lambda>s. if s = ''{\"groups\":[]}'' then Some (JObj [(''groups'', JArr [])]) else None)
     ''eyJhbGciOiJSUzI1NiJ9.eyJncm91cHMiOltdfQ.c2ln'' = JObj [(''groups'', JArr [])] \<and>
   parseIdTokenClaims
     (\<lambda>s. if s = ''eyJncm91cHMiOltdfQ'' then ''{\"groups\":[]}'' else [])
     (\<lambda>s. if s = ''{\"groups\":[]}'' then Some (JObj [(''groups'', JArr [])]) else None)
     ''only.two'' = JObj [] \<and>
   parseIdTokenClaims
     (\<lambda>s. if s = ''eyJncm91cHMiOltdfQ'' then ''{\"groups\":[]}'' else [])
     (\<lambda>s. if s = ''{\"groups\":[]}'' then Some (JObj [(''groups'', JArr [])]) else None)
     ''header.!!!invalid!!!.sig'' = JObj []"
  using parseIdTokenClaims_roundtrip
    [of "''eyJhbGciOiJSUzI1NiJ9''" "''c2ln''" "\<lambda>s. ''eyJncm91cHMiOltdfQ''"
      "\<lambda>v. ''{\"groups\":[]}''" "JObj [(''groups'', JArr [])]"
      "\<lambda>s. if s = ''eyJncm91cHMiOltdfQ'' then ''{\"groups\":[]}'' else []"
      "\<lambda>s. if s = ''{\"groups\":[]}'' then Some (JObj [(''groups'', JArr [])]) else None"
      "''only.two''" "''header''" "''!!!invalid!!!''" "''sig''"]
    parseIdTokenClaims_roundtrip
    [of "''eyJhbGciOiJSUzI1NiJ9''" "''c2ln''" "\<lambda>s. ''eyJncm91cHMiOltdfQ''"
      "\<lambda>v. ''{\"groups\":[]}''" "JObj [(''groups'', JArr [])]"
      "\<lambda>s. if s = ''eyJncm91cHMiOltdfQ'' then ''{\"groups\":[]}'' else []"
      "\<lambda>s. if s = ''{\"groups\":[]}'' then Some (JObj [(''groups'', JArr [])]) else None"
      "''header.!!!invalid!!!.sig''" "''header''" "''!!!invalid!!!''" "''sig''"]
  by simp

text \<open>
  C10. A token of three segments whose middle segment parses to a value that is not an
  object, such as \<^verbatim>\<open>null\<close>, decodes to that value as it is, not to the empty object.
\<close>

theorem parseIdTokenClaims_non_object:
  assumes "split_on CHR ''.'' token = [h, p, sg]" and "parse (decode p) = Some v"
    and "\<forall>kvs. v \<noteq> JObj kvs"
  shows "parseIdTokenClaims decode parse token = v \<and>
         parseIdTokenClaims decode parse token \<noteq> JObj []"
  using assms by (simp add: parseIdTokenClaims_def)

theorem parseIdTokenClaims_non_object_witness:
  "parseIdTokenClaims
     (\<lambda>s. if s = ''bnVsbA'' then ''null'' else [])
     (\<lambda>s. if s = ''null'' then Some JNull else None)
     ''eyJhbGciOiJSUzI1NiJ9.bnVsbA.c2ln'' = JNull \<and>
   parseIdTokenClaims
     (\<lambda>s. if s = ''bnVsbA'' then ''null'' else [])
     (\<lambda>s. if s = ''null'' then Some JNull else None)
     ''eyJhbGciOiJSUzI1NiJ9.bnVsbA.c2ln'' \<noteq> JObj []"
  using parseIdTokenClaims_non_object
    [of "''eyJhbGciOiJSUzI1NiJ9.bnVsbA.c2ln''" "''eyJhbGciOiJSUzI1NiJ9''" "''bnVsbA''" "''c2ln''"
      "\<lambda>s. if s = ''null'' then Some JNull else None"
      "\<lambda>s. if s = ''bnVsbA'' then ''null'' else []" JNull]
  by simp

section \<open>Properties of the discovery cache\<close>

text \<open>
  C6. The time to live is five minutes. \<^verbatim>\<open>getDiscovery\<close> answers from the cache,
  without a request and without changing it, when the slot holds a document and its
  age is below the time to live; it answers without a request only then. Otherwise it
  requests the well-known URL of the issuer (the issuer without trailing slashes,
  followed by \<^verbatim>\<open>/.well-known/openid-configuration\<close>) once: a response that is not
  ok is an error whose message carries the status and leaves the cache as it was; a
  response that is ok replaces the cached document and its time stamp.
\<close>

theorem getDiscovery_cache:
  "DISCOVERY_TTL_MS = 300000 \<and>
   (truthy (discoveryCache c) \<and> now - discoveryCacheTime c < DISCOVERY_TTL_MS \<longrightarrow>
      getDiscovery fetch now c issuer = (Inr (discoveryCache c), c, [])) \<and>
   (snd (snd (getDiscovery fetch now c issuer)) = [] \<longrightarrow>
      truthy (discoveryCache c) \<and> now - discoveryCacheTime c < DISCOVERY_TTL_MS) \<and>
   (\<not> truthy (discoveryCache c) \<or> now - discoveryCacheTime c \<ge> DISCOVERY_TTL_MS \<longrightarrow>
      snd (snd (getDiscovery fetch now c issuer)) = [wellKnown issuer] \<and>
      (fetch (wellKnown issuer) = Inr res \<and> \<not> ok res \<longrightarrow>
         getDiscovery fetch now c issuer =
           (Inl (Error (''OIDC discovery failed: '' @ nat_to_decimal (status res) @ '' ''
                        @ statusText res @ '' from '' @ wellKnown issuer)),
            c, [wellKnown issuer])) \<and>
      (fetch (wellKnown issuer) = Inr res \<and> ok res \<and> json_body res = Inr doc \<longrightarrow>
         getDiscovery fetch now c issuer =
           (Inr doc, \<lparr>discoveryCache = doc, discoveryCacheTime = now\<rparr>, [wellKnown issuer]))) \<and>
   (issuer = [] \<or> last issuer \<noteq> CHR ''/'' \<longrightarrow>
      wellKnown issuer = issuer @ ''/.well-known/openid-configuration'')"
proof -
  have w: "wellKnown issuer = issuer @ ''/.well-known/openid-configuration''"
    if "issuer = [] \<or> last issuer \<noteq> CHR ''/''"
  proof (cases issuer rule: rev_cases)
    case Nil
    then show ?thesis by (simp add: wellKnown_def strip_trailing_slashes_def)
  next
    case (snoc xs x)
    with that show ?thesis by (simp add: wellKnown_def strip_trailing_slashes_def)
  qed
  show ?thesis
    using w by (auto simp: getDiscovery_def DISCOVERY_TTL_MS_def split: sum.splits)
qed

theorem getDiscovery_cache_witness:
  "getDiscovery (\<lambda>u. Inl (Error ''unreachable'')) 299999
     \<lparr>discoveryCache = JObj [(''issuer'', JStr ''https://idp'')], discoveryCacheTime = 0\<rparr>
     ''https://idp'' =
       (Inr (JObj [(''issuer'', JStr ''https://idp'')]),
        \<lparr>discoveryCache = JObj [(''issuer'', JStr ''https://idp'')], discoveryCacheTime = 0\<rparr>, []) \<and>
   getDiscovery
     (\<lambda>u. Inr \<lparr>ok = True, status = 200, statusText = ''OK'',
                  json_body = Inr (JObj [(''issuer'', JStr u)])\<rparr>) 300000
     \<lparr>discoveryCache = JObj [(''issuer'', JStr ''old'')], discoveryCacheTime = 0\<rparr>
     ''https://idp'' =
       (Inr (JObj [(''issuer'', JStr ''https://idp/.well-known/openid-configuration'')]),
        \<lparr>discoveryCache = JObj [(''issuer'', JStr ''https://idp/.well-known/openid-configuration'')],
         discoveryCacheTime = 300000\<rparr>,
        [''https://idp/.well-known/openid-configuration'']) \<and>
   getDiscovery
     (\<lambda>u. Inr \<lparr>ok = False, status = 42, statusText = ''Down'', json_body = Inr JNull\<rparr>) 5
     initial_discovery_cache ''https://idp'' =
       (Inl (Error ''OIDC discovery failed: 42 Down from https://idp/.well-known/openid-configuration''),
        initial_discovery_cache, [''https://idp/.well-known/openid-configuration''])"
  using
    getDiscovery_cache [where c = "\<lparr>discoveryCache = JObj [(''issuer'', JStr ''https://idp'')], discoveryCacheTime = 0\<rparr>"
      and now = 299999 and fetch = "\<lambda>u. Inl (Error ''unreachable'')" and issuer = "''https://idp''"]
    getDiscovery_cache [where c = "\<lparr>discoveryCache = JObj [(''issuer'', JStr ''old'')], discoveryCacheTime = 0\<rparr>"
      and now = 300000 and fetch = "\<lambda>u. Inr \<lparr>ok = True, status = 200, statusText = ''OK'',
                  json_body = Inr (JObj [(''issuer'', JStr u)])\<rparr>" and issuer = "''https://idp''"
      and res = "\<lparr>ok = True, status = 200, statusText = ''OK'',
                  json_body = Inr (JObj [(''issuer'', JStr ''https://idp/.well-known/openid-configuration'')])\<rparr>"
      and doc = "JObj [(''issuer'', JStr ''https://idp/.well-known/openid-configuration'')]"]
    getDiscovery_cache [where c = initial_discovery_cache and now = 5
      and fetch = "\<lambda>u. Inr \<lparr>ok = False, status = 42, statusText = ''Down'', json_body = Inr JNull\<rparr>"
      and issuer = "''https://idp''"
      and res = "\<lparr>ok = False, status = 42, statusText = ''Down'', json_body = Inr JNull\<rparr>" and doc = JNull]
  by (simp add: initial_discovery_cache_def dec42)

section \<open>Properties of the team claim-rule engine\<close>

lemma process_rules_find:
  "process_rules uuid uid userInfo idTokenClaims tid db rules =
     (case find (rule_matches userInfo idTokenClaims) rules of
        None \<Rightarrow> db
      | Some rule \<Rightarrow> ensureTeamMembership uuid db uid tid (teamRole rule))"
  by (induction rules) (simp_all add: rule_matches_def)

lemma ensureTeamMembership_noop:
  "tid \<notin> set (teams db) \<or> is_member db uid tid \<Longrightarrow> ensureTeamMembership uuid db uid tid rl = db"
  by (auto simp: ensureTeamMembership_def is_member_def)

lemma ensureTeamMembership_add:
  "tid \<in> set (teams db) \<Longrightarrow> \<not> is_member db uid tid \<Longrightarrow>
   ensureTeamMembership uuid db uid tid rl =
     db\<lparr>teamUsers := teamUsers db @
           [\<lparr>tu_id = uuid (uuids_drawn db), teamId = tid, userId = uid,
             role = (if rl \<noteq> [] then rl else ''team_member'')\<rparr>],
        uuids_drawn := Suc (uuids_drawn db)\<rparr>"
  by (auto simp: ensureTeamMembership_def is_member_def)

lemma ensureTeamMembership_settles:
  "tid \<notin> set (teams (ensureTeamMembership uuid db uid tid rl)) \<or>
   is_member (ensureTeamMembership uuid db uid tid rl) uid tid"
  by (auto simp: ensureTeamMembership_def is_member_def)

lemma process_rules_step:
  "\<exists>added. teamUsers (process_rules uuid uid userInfo idTokenClaims tid db rules) = teamUsers db @ added \<and>
     teams (process_rules uuid uid userInfo idTokenClaims tid db rules) = teams db \<and>
     (added = [] \<or> (\<exists>m. added = [m] \<and> grant_of userInfo idTokenClaims uid rules db tid m))"
proof (cases "find (rule_matches userInfo idTokenClaims) rules")
  case None
  then show ?thesis by (simp add: process_rules_find)
next
  case (Some rule)
  show ?thesis
  proof (cases "tid \<in> set (teams db) \<and> \<not> is_member db uid tid")
    case True
    then show ?thesis
      using Some by (simp add: process_rules_find ensureTeamMembership_add grant_of_def)
  next
    case False
    then have "ensureTeamMembership uuid db uid tid (teamRole rule) = db"
      by (intro ensureTeamMembership_noop) blast
    then show ?thesis using Some by (simp add: process_rules_find)
  qed
qed

lemma is_member_append:
  "teamUsers db' = teamUsers db @ added \<Longrightarrow> is_member db uid tid \<Longrightarrow> is_member db' uid tid"
  by (auto simp: is_member_def)

lemma process_teams_added:
  "\<exists>added. teamUsers (process_teams uuid uid userInfo idTokenClaims allRules db tids) = teamUsers db @ added \<and>
     teams (process_teams uuid uid userInfo idTokenClaims allRules db tids) = teams db \<and>
     distinct (map teamId added) \<and>
     (\<forall>m \<in> set added. \<not> is_member db uid (teamId m) \<and>
        grant_of userInfo idTokenClaims uid (rules_of allRules (teamId m)) db (teamId m) m)"
proof (induction tids arbitrary: db)
  case Nil
  show ?case by simp
next
  case (Cons tid tids)
  let ?db1 = "process_rules uuid uid userInfo idTokenClaims tid db (rules_of allRules tid)"
  obtain a1 where a1: "teamUsers ?db1 = teamUsers db @ a1" "teams ?db1 = teams db"
    "a1 = [] \<or> (\<exists>m. a1 = [m] \<and> grant_of userInfo idTokenClaims uid (rules_of allRules tid) db tid m)"
    using process_rules_step by blast
  obtain a2 where a2:
    "teamUsers (process_teams uuid uid userInfo idTokenClaims allRules ?db1 tids) = teamUsers ?db1 @ a2"
    "teams (process_teams uuid uid userInfo idTokenClaims allRules ?db1 tids) = teams ?db1"
    "distinct (map teamId a2)"
    "\<forall>m \<in> set a2. \<not> is_member ?db1 uid (teamId m) \<and>
        grant_of userInfo idTokenClaims uid (rules_of allRules (teamId m)) ?db1 (teamId m) m"
    using Cons.IH [of ?db1] by blast
  have step: "process_teams uuid uid userInfo idTokenClaims allRules db (tid # tids) =
              process_teams uuid uid userInfo idTokenClaims allRules ?db1 tids"
    by (simp add: rules_of_def)
  have mono: "is_member db uid t \<Longrightarrow> is_member ?db1 uid t" for t
    using a1(1) by (rule is_member_append)
  have g2: "\<not> is_member db uid (teamId m) \<and>
        grant_of userInfo idTokenClaims uid (rules_of allRules (teamId m)) db (teamId m) m"
    if "m \<in> set a2" for m
  proof -
    from that a2(4) have nm: "\<not> is_member ?db1 uid (teamId m)"
      and g: "grant_of userInfo idTokenClaims uid (rules_of allRules (teamId m)) ?db1 (teamId m) m"
      by blast+
    from nm mono have "\<not> is_member db uid (teamId m)" by blast
    with g a1(2) show ?thesis by (simp add: grant_of_def)
  qed
  have g1: "\<not> is_member db uid (teamId m) \<and>
        grant_of userInfo idTokenClaims uid (rules_of allRules (teamId m)) db (teamId m) m"
    if "m \<in> set a1" for m
    using that a1(3) by (auto simp: grant_of_def)
  have dist: "distinct (map teamId (a1 @ a2))"
  proof (cases "a1 = []")
    case True
    with a2(3) show ?thesis by simp
  next
    case False
    with a1(3) obtain m where m: "a1 = [m]"
      "grant_of userInfo idTokenClaims uid (rules_of allRules tid) db tid m" by blast
    then have "userId m = uid" "teamId m = tid" by (simp_all add: grant_of_def)
    with a1(1) m(1) have "is_member ?db1 uid tid" by (auto simp: is_member_def)
    with a2(4) have "\<forall>m' \<in> set a2. teamId m' \<noteq> tid" by blast
    with a2(3) m(1) \<open>teamId m = tid\<close> show ?thesis by auto
  qed
  show ?case
    unfolding step
    using a1(1,2) a2(1,2) dist g1 g2
    by (intro exI [of _ "a1 @ a2"]) auto
qed

lemma process_rules_settled_noop:
  "settled userInfo idTokenClaims uid allRules db tid \<Longrightarrow>
   process_rules uuid uid userInfo idTokenClaims tid db (rules_of allRules tid) = db"
  by (auto simp: settled_def process_rules_find ensureTeamMembership_noop split: option.splits)

lemma process_rules_settles:
  "settled userInfo idTokenClaims uid allRules
     (process_rules uuid uid userInfo idTokenClaims tid db (rules_of allRules tid)) tid"
  using ensureTeamMembership_settles
  by (auto simp: settled_def process_rules_find split: option.splits)

lemma process_teams_settled_noop:
  "\<forall>tid \<in> set tids. settled userInfo idTokenClaims uid allRules db tid \<Longrightarrow>
   process_teams uuid uid userInfo idTokenClaims allRules db tids = db"
proof (induction tids)
  case Nil
  show ?case by simp
next
  case (Cons tid tids)
  then have "process_rules uuid uid userInfo idTokenClaims tid db (rules_of allRules tid) = db"
    by (intro process_rules_settled_noop) simp
  with Cons show ?case by (simp add: rules_of_def)
qed

lemma settled_mono:
  assumes "settled userInfo idTokenClaims uid allRules db tid"
    and "teamUsers db' = teamUsers db @ added" and "teams db' = teams db"
  shows "settled userInfo idTokenClaims uid allRules db' tid"
  using assms is_member_append [OF assms(2)] by (auto simp: settled_def)

lemma process_teams_settles:
  "\<forall>tid \<in> set tids. settled userInfo idTokenClaims uid allRules
     (process_teams uuid uid userInfo idTokenClaims allRules db tids) tid"
proof (induction tids arbitrary: db)
  case Nil
  show ?case by simp
next
  case (Cons tid tids)
  let ?db1 = "process_rules uuid uid userInfo idTokenClaims tid db (rules_of allRules tid)"
  let ?db2 = "process_teams uuid uid userInfo idTokenClaims allRules ?db1 tids"
  have step: "process_teams uuid uid userInfo idTokenClaims allRules db (tid # tids) = ?db2"
    by (simp add: rules_of_def)
  obtain added where a: "teamUsers ?db2 = teamUsers ?db1 @ added" "teams ?db2 = teams ?db1"
    using process_teams_added [of uuid uid userInfo idTokenClaims allRules ?db1 tids] by blast
  have "settled userInfo idTokenClaims uid allRules ?db1 tid" by (rule process_rules_settles)
  then have "settled userInfo idTokenClaims uid allRules ?db2 tid"
    using a by (rule settled_mono)
  with Cons.IH [of ?db1] show ?case unfolding step by simp
qed

lemma processOidcTeamMappings_idempotent:
  "processOidcTeamMappings parse uuid r
     (processOidcTeamMappings parse uuid r db uid userInfo idTokenClaims) uid userInfo idTokenClaims
   = processOidcTeamMappings parse uuid r db uid userInfo idTokenClaims"
  using process_teams_settles process_teams_settled_noop
  by (simp add: processOidcTeamMappings_def Let_def)

lemma processOidcTeamMappings_added:
  "\<exists>added.
     teamUsers (processOidcTeamMappings parse uuid r db uid userInfo idTokenClaims) = teamUsers db @ added \<and>
     teams (processOidcTeamMappings parse uuid r db uid userInfo idTokenClaims) = teams db \<and>
     distinct (map teamId added) \<and>
     (\<forall>m \<in> set added. \<not> is_member db uid (teamId m) \<and>
        grant_of userInfo idTokenClaims uid (rules_of (getAllTeamRules parse r) (teamId m)) db (teamId m) m)"
proof -
  have triv: "\<exists>added. teamUsers db = teamUsers db @ added \<and> teams db = teams db \<and>
     distinct (map teamId added) \<and>
     (\<forall>m \<in> set added. \<not> is_member db uid (teamId m) \<and>
        grant_of userInfo idTokenClaims uid (rules_of (getAllTeamRules parse r) (teamId m)) db (teamId m) m)"
    by (intro exI [of _ "[]"]) simp
  show ?thesis
    using triv process_teams_added [of uuid uid userInfo idTokenClaims "getAllTeamRules parse r" db]
    by (simp add: processOidcTeamMappings_def Let_def)
qed

lemma memberships_unchanged:
  assumes "is_member db uid tid"
  shows "memberships (processOidcTeamMappings parse uuid r db uid userInfo idTokenClaims) uid tid
         = memberships db uid tid"
proof -
  obtain added where a:
    "teamUsers (processOidcTeamMappings parse uuid r db uid userInfo idTokenClaims) = teamUsers db @ added"
    "\<forall>m \<in> set added. \<not> is_member db uid (teamId m)"
    using processOidcTeamMappings_added [of parse uuid r db uid userInfo idTokenClaims] by blast
  from a(2) assms have "\<forall>m \<in> set added. teamId m \<noteq> tid" by blast
  then have "filter (\<lambda>m. userId m = uid \<and> teamId m = tid) added = []"
    by (simp add: filter_empty_conv)
  with a(1) show ?thesis by (simp add: memberships_def)
qed

lemma distinct_map_filter_le_one:
  "distinct (map f xs) \<Longrightarrow> length (filter (\<lambda>x. f x = k) xs) \<le> 1"
proof (induction xs)
  case Nil
  show ?case by simp
next
  case (Cons x xs)
  show ?case
  proof (cases "f x = k")
    case True
    from Cons.prems have "f x \<notin> f ` set xs" by simp
    with True have "\<forall>y \<in> set xs. f y \<noteq> k" by blast
    then have "filter (\<lambda>x. f x = k) xs = []" by (simp add: filter_empty_conv)
    with True show ?thesis by simp
  next
    case False
    with Cons show ?thesis by simp
  qed
qed

lemma processOidcTeamMappings_grants:
  assumes keys: "tid \<in> set (map fst (getAllTeamRules parse r))"
    and match: "find (rule_matches userInfo idTokenClaims) (rules_of (getAllTeamRules parse r) tid) = Some rule"
    and team: "tid \<in> set (teams db)"
    and fresh: "\<not> is_member db uid tid"
  shows "\<exists>m. memberships (processOidcTeamMappings parse uuid r db uid userInfo idTokenClaims) uid tid = [m] \<and>
           role m = (if teamRole rule \<noteq> [] then teamRole rule else ''team_member'')"
proof -
  let ?all = "getAllTeamRules parse r"
  let ?db' = "processOidcTeamMappings parse uuid r db uid userInfo idTokenClaims"
  from keys have en: "redis_enabled r" by (auto simp: getAllTeamRules_def split: if_splits)
  from keys have ne: "length (map fst ?all) \<noteq> 0" by auto
  have run: "?db' = process_teams uuid uid userInfo idTokenClaims ?all db (map fst ?all)"
    using en ne by (simp add: processOidcTeamMappings_def Let_def)
  obtain added where a: "teamUsers ?db' = teamUsers db @ added" "teams ?db' = teams db"
    "distinct (map teamId added)"
    "\<forall>m \<in> set added.
       grant_of userInfo idTokenClaims uid (rules_of ?all (teamId m)) db (teamId m) m"
    using processOidcTeamMappings_added [of parse uuid r db uid userInfo idTokenClaims] by blast
  have "settled userInfo idTokenClaims uid ?all ?db' tid"
    unfolding run using process_teams_settles keys by blast
  with match team a(2) have mem: "is_member ?db' uid tid" by (simp add: settled_def)
  from fresh have old: "filter (\<lambda>m. userId m = uid \<and> teamId m = tid) (teamUsers db) = []"
    by (auto simp: is_member_def filter_empty_conv)
  have own: "userId m = uid" if "m \<in> set added" for m
    using that a(4) by (auto simp: grant_of_def)
  have flt: "filter (\<lambda>m. userId m = uid \<and> teamId m = tid) added = filter (\<lambda>m. teamId m = tid) added"
    using own by (intro filter_cong) auto
  from mem a(1) fresh obtain m where m: "m \<in> set added" "teamId m = tid"
    by (auto simp: is_member_def)
  from a(3) have "length (filter (\<lambda>x. teamId x = tid) added) \<le> 1"
    by (rule distinct_map_filter_le_one)
  moreover from m have "m \<in> set (filter (\<lambda>x. teamId x = tid) added)" by simp
  ultimately have one: "filter (\<lambda>x. teamId x = tid) added = [m]"
    by (cases "filter (\<lambda>x. teamId x = tid) added") auto
  from a(4) m have "grant_of userInfo idTokenClaims uid (rules_of ?all tid) db tid m" by blast
  with match have rl: "role m = (if teamRole rule \<noteq> [] then teamRole rule else ''team_member'')"
    by (simp add: grant_of_def)
  have "memberships ?db' uid tid = [m]"
    by (simp add: memberships_def a(1) old flt one)
  with rl show ?thesis by blast
qed

lemma processOidcTeamMappings_no_grant:
  assumes "find (rule_matches userInfo idTokenClaims) (rules_of (getAllTeamRules parse r) tid) = None
           \<or> tid \<notin> set (teams db)"
  shows "memberships (processOidcTeamMappings parse uuid r db uid userInfo idTokenClaims) uid tid
         = memberships db uid tid"
proof -
  obtain added where a:
    "teamUsers (processOidcTeamMappings parse uuid r db uid userInfo idTokenClaims) = teamUsers db @ added"
    "\<forall>m \<in> set added.
       grant_of userInfo idTokenClaims uid (rules_of (getAllTeamRules parse r) (teamId m)) db (teamId m) m"
    using processOidcTeamMappings_added [of parse uuid r db uid userInfo idTokenClaims] by blast
  have "teamId m \<noteq> tid" if "m \<in> set added" for m
    using that a(2) assms by (auto simp: grant_of_def)
  then have "filter (\<lambda>m. userId m = uid \<and> teamId m = tid) added = []"
    by (auto simp: filter_empty_conv)
  with a(1) show ?thesis by (simp add: memberships_def)
qed

text \<open>
  C7. For the rules of a team, the loop of \<^verbatim>\<open>applyTeamMappings\<close> is the call of
  \<^verbatim>\<open>ensureTeamMembership\<close> with the role of the first rule that matches, and no call
  when none matches. A login grants: for a team of the rule map that exists, where the
  user is no member and some rule matches, the user has exactly one membership row
  afterwards, with the role of the first matching rule. It grants nothing else: where
  no rule of the team matches or the team does not exist, the membership rows of the
  user in it stay as they are, and a login only appends rows, at most one for a team.
  Where the user is a member already, the membership rows of the user in that team stay
  as they are. Running the mapping again on its own result changes nothing.
\<close>

theorem applyTeamMappings_first_match_once:
  "(process_rules uuid uid userInfo idTokenClaims tid db rules =
      (case find (rule_matches userInfo idTokenClaims) rules of
         None \<Rightarrow> db
       | Some rule \<Rightarrow> ensureTeamMembership uuid db uid tid (teamRole rule))) \<and>
   (tid \<in> set (map fst (getAllTeamRules parse r)) \<and>
    find (rule_matches userInfo idTokenClaims) (rules_of (getAllTeamRules parse r) tid) = Some rule \<and>
    tid \<in> set (teams db) \<and> \<not> is_member db uid tid \<longrightarrow>
      (\<exists>m. memberships (applyTeamMappings parse uuid r db uid userInfo idTokenClaims) uid tid = [m] \<and>
           role m = (if teamRole rule \<noteq> [] then teamRole rule else ''team_member''))) \<and>
   (find (rule_matches userInfo idTokenClaims) (rules_of (getAllTeamRules parse r) tid) = None \<or>
    tid \<notin> set (teams db) \<longrightarrow>
      memberships (applyTeamMappings parse uuid r db uid userInfo idTokenClaims) uid tid
        = memberships db uid tid) \<and>
   (\<exists>added.
      teamUsers (applyTeamMappings parse uuid r db uid userInfo idTokenClaims) = teamUsers db @ added \<and>
      teams (applyTeamMappings parse uuid r db uid userInfo idTokenClaims) = teams db \<and>
      distinct (map teamId added) \<and>
      (\<forall>m \<in> set added.
         grant_of userInfo idTokenClaims uid (rules_of (getAllTeamRules parse r) (teamId m))
           db (teamId m) m)) \<and>
   (is_member db uid tid \<longrightarrow>
      memberships (applyTeamMappings parse uuid r db uid userInfo idTokenClaims) uid tid
        = memberships db uid tid) \<and>
   applyTeamMappings parse uuid r
     (applyTeamMappings parse uuid r db uid userInfo idTokenClaims) uid userInfo idTokenClaims
     = applyTeamMappings parse uuid r db uid userInfo idTokenClaims"
proof -
  have added: "\<exists>added.
      teamUsers (processOidcTeamMappings parse uuid r db uid userInfo idTokenClaims) = teamUsers db @ added \<and>
      teams (processOidcTeamMappings parse uuid r db uid userInfo idTokenClaims) = teams db \<and>
      distinct (map teamId added) \<and>
      (\<forall>m \<in> set added.
         grant_of userInfo idTokenClaims uid (rules_of (getAllTeamRules parse r) (teamId m))
           db (teamId m) m)"
    using processOidcTeamMappings_added [of parse uuid r db uid userInfo idTokenClaims] by blast
  have grants: "tid \<in> set (map fst (getAllTeamRules parse r)) \<and>
    find (rule_matches userInfo idTokenClaims) (rules_of (getAllTeamRules parse r) tid) = Some rule \<and>
    tid \<in> set (teams db) \<and> \<not> is_member db uid tid \<longrightarrow>
      (\<exists>m. memberships (processOidcTeamMappings parse uuid r db uid userInfo idTokenClaims) uid tid = [m] \<and>
           role m = (if teamRole rule \<noteq> [] then teamRole rule else ''team_member''))"
    using processOidcTeamMappings_grants [of tid parse r userInfo idTokenClaims rule db uid uuid]
    by blast
  have none_else: "find (rule_matches userInfo idTokenClaims) (rules_of (getAllTeamRules parse r) tid) = None \<or>
    tid \<notin> set (teams db) \<longrightarrow>
      memberships (processOidcTeamMappings parse uuid r db uid userInfo idTokenClaims) uid tid
        = memberships db uid tid"
    using processOidcTeamMappings_no_grant [of userInfo idTokenClaims parse r tid db uuid uid]
    by blast
  have loop: "process_rules uuid uid userInfo idTokenClaims tid db rules =
      (case find (rule_matches userInfo idTokenClaims) rules of
         None \<Rightarrow> db
       | Some rule \<Rightarrow> ensureTeamMembership uuid db uid tid (teamRole rule))"
    by (rule process_rules_find)
  have kept: "is_member db uid tid \<longrightarrow>
      memberships (processOidcTeamMappings parse uuid r db uid userInfo idTokenClaims) uid tid
        = memberships db uid tid"
    using memberships_unchanged [of db uid tid parse uuid r userInfo idTokenClaims] by blast
  have again: "processOidcTeamMappings parse uuid r
     (processOidcTeamMappings parse uuid r db uid userInfo idTokenClaims) uid userInfo idTokenClaims
     = processOidcTeamMappings parse uuid r db uid userInfo idTokenClaims"
    by (rule processOidcTeamMappings_idempotent)
  show ?thesis
    unfolding applyTeamMappings_def
    using loop grants none_else added kept again
    by (intro conjI)
qed

lemma demo_fresh_login:
  "applyTeamMappings (\<lambda>s. Some demo_rules) (\<lambda>n. ''m'' @ nat_to_decimal n)
     \<lparr>redis_enabled = True, redis_client = Some [(RULES_KEY, ''rules'')]\<rparr>
     \<lparr>teams = [''t1''], teamUsers = [], uuids_drawn = 42\<rparr>
     ''u1'' [(''sub'', JStr ''u1''), (''groups'', JArr [JStr ''staff'', JStr ''marketing-analytics''])] []
   = \<lparr>teams = [''t1''],
      teamUsers = [\<lparr>tu_id = ''m42'', teamId = ''t1'', userId = ''u1'', role = ''team_manager''\<rparr>],
      uuids_drawn = 43\<rparr>"
  by (simp add: applyTeamMappings_def processOidcTeamMappings_def getAllTeamRules_def redis_get_def
      RULES_KEY_def demo_rules_def matchesClaim_def coalesce_def get_prop_def
      ensureTeamMembership_def dec42)

lemma demo_getAllTeamRules:
  "getAllTeamRules (\<lambda>s. Some demo_rules)
     \<lparr>redis_enabled = True, redis_client = Some [(RULES_KEY, ''rules'')]\<rparr> = demo_rules"
  by (simp add: getAllTeamRules_def redis_get_def RULES_KEY_def)

lemma demo_first_match:
  "find (rule_matches [(''sub'', JStr ''u1''), (''groups'', JArr [JStr ''staff'', JStr ''marketing-analytics''])] [])
     (rules_of demo_rules ''t1'')
   = Some \<lparr>rule_id = ''r1'', claimField = ''groups'', claimValue = ''marketing-analytics'',
           teamRole = ''team_manager'', createdAt = ''2024-01-01T00:00:00.000Z''\<rparr>"
  by (simp add: rules_of_def demo_rules_def rule_matches_def matchesClaim_def coalesce_def
      get_prop_def)

theorem applyTeamMappings_first_match_once_witness:
  "(\<exists>m. memberships
      (applyTeamMappings (\<lambda>s. Some demo_rules) (\<lambda>n. ''m'' @ nat_to_decimal n)
        \<lparr>redis_enabled = True, redis_client = Some [(RULES_KEY, ''rules'')]\<rparr>
        \<lparr>teams = [''t1''], teamUsers = [], uuids_drawn = 42\<rparr>
        ''u1'' [(''sub'', JStr ''u1''), (''groups'', JArr [JStr ''staff'', JStr ''marketing-analytics''])] [])
      ''u1'' ''t1'' = [m] \<and> role m = ''team_manager'') \<and>
   is_member
     \<lparr>teams = [''t1''],
      teamUsers = [\<lparr>tu_id = ''m0'', teamId = ''t1'', userId = ''u1'', role = ''team_view_only''\<rparr>],
      uuids_drawn = 1\<rparr> ''u1'' ''t1'' \<and>
   memberships
     (applyTeamMappings (\<lambda>s. Some demo_rules) (\<lambda>n. ''m'' @ nat_to_decimal n)
        \<lparr>redis_enabled = True, redis_client = Some [(RULES_KEY, ''rules'')]\<rparr>
        \<lparr>teams = [''t1''],
         teamUsers = [\<lparr>tu_id = ''m0'', teamId = ''t1'', userId = ''u1'', role = ''team_view_only''\<rparr>],
         uuids_drawn = 1\<rparr>
        ''u1'' [(''sub'', JStr ''u1''), (''groups'', JArr [JStr ''staff'', JStr ''marketing-analytics''])] [])
     ''u1'' ''t1''
   = [\<lparr>tu_id = ''m0'', teamId = ''t1'', userId = ''u1'', role = ''team_view_only''\<rparr>]"
proof -
  let ?r = "\<lparr>redis_enabled = True, redis_client = Some [(RULES_KEY, ''rules'')]\<rparr>"
  let ?ui = "[(''sub'', JStr ''u1''), (''groups'', JArr [JStr ''staff'', JStr ''marketing-analytics''])]"
  let ?rule = "\<lparr>rule_id = ''r1'', claimField = ''groups'', claimValue = ''marketing-analytics'',
           teamRole = ''team_manager'', createdAt = ''2024-01-01T00:00:00.000Z''\<rparr>"
  let ?empty = "\<lparr>teams = [''t1''], teamUsers = [], uuids_drawn = 42\<rparr>"
  let ?db = "\<lparr>teams = [''t1''],
      teamUsers = [\<lparr>tu_id = ''m0'', teamId = ''t1'', userId = ''u1'', role = ''team_view_only''\<rparr>],
      uuids_drawn = 1\<rparr>"
  have k: "''t1'' \<in> set (map fst (getAllTeamRules (\<lambda>s. Some demo_rules) ?r))"
    by (simp only: demo_getAllTeamRules) (simp add: demo_rules_def)
  have f: "find (rule_matches ?ui []) (rules_of (getAllTeamRules (\<lambda>s. Some demo_rules) ?r) ''t1'')
           = Some ?rule"
    by (simp only: demo_getAllTeamRules demo_first_match)
  have t: "''t1'' \<in> set (teams ?empty)" by simp
  have n: "\<not> is_member ?empty ''u1'' ''t1''" by (simp add: is_member_def)
  have fresh: "\<exists>m. memberships
      (applyTeamMappings (\<lambda>s. Some demo_rules) (\<lambda>n. ''m'' @ nat_to_decimal n) ?r ?empty ''u1'' ?ui [])
      ''u1'' ''t1'' = [m] \<and> role m = ''team_manager''"
    using k f t n
      applyTeamMappings_first_match_once [where db = ?empty and uid = "''u1''" and tid = "''t1''"
        and parse = "\<lambda>s. Some demo_rules" and uuid = "\<lambda>n. ''m'' @ nat_to_decimal n"
        and r = ?r and userInfo = ?ui and idTokenClaims = "[]" and rule = ?rule]
    by simp
  have h: "is_member ?db ''u1'' ''t1''" by (simp add: is_member_def)
  have m: "memberships ?db ''u1'' ''t1''
    = [\<lparr>tu_id = ''m0'', teamId = ''t1'', userId = ''u1'', role = ''team_view_only''\<rparr>]"
    by (simp add: memberships_def)
  have kept: "memberships
     (applyTeamMappings (\<lambda>s. Some demo_rules) (\<lambda>n. ''m'' @ nat_to_decimal n) ?r ?db ''u1'' ?ui [])
     ''u1'' ''t1''
   = [\<lparr>tu_id = ''m0'', teamId = ''t1'', userId = ''u1'', role = ''team_view_only''\<rparr>]"
    using h m
      applyTeamMappings_first_match_once [where db = ?db and uid = "''u1''" and tid = "''t1''"
        and parse = "\<lambda>s. Some demo_rules" and uuid = "\<lambda>n. ''m'' @ nat_to_decimal n"
        and r = ?r and userInfo = ?ui and idTokenClaims = "[]"]
    by simp
  from fresh h kept show ?thesis by blast
qed

text \<open>
  C8, as the claim states it, fails for rule addition: \<^verbatim>\<open>addTeamRule\<close> does not look at
  \<^verbatim>\<open>redis.enabled\<close> before it calls \<^verbatim>\<open>redis.client.set\<close>. With the store
  disabled it raises when there is no client object, and writes the rules when there
  is one.
\<close>

theorem addTeamRule_disabled_counterexample:
  "\<not> redis_enabled \<lparr>redis_enabled = False, redis_client = None\<rparr> \<and>
   addTeamRule (\<lambda>s. None) (\<lambda>m. ''rules'') ''r1'' ''2024-01-01T00:00:00.000Z''
     \<lparr>redis_enabled = False, redis_client = None\<rparr> ''t1'' ''groups'' ''staff'' ''team_member''
   = (Inl (TypeError ''Cannot read properties of undefined (reading 'set')''),
      \<lparr>redis_enabled = False, redis_client = None\<rparr>) \<and>
   \<not> redis_enabled \<lparr>redis_enabled = False, redis_client = Some []\<rparr> \<and>
   snd (addTeamRule (\<lambda>s. None) (\<lambda>m. ''rules'') ''r1'' ''2024-01-01T00:00:00.000Z''
     \<lparr>redis_enabled = False, redis_client = Some []\<rparr> ''t1'' ''groups'' ''staff'' ''team_member'')
   = \<lparr>redis_enabled = False, redis_client = Some [(RULES_KEY, ''rules'')]\<rparr>"
  by (simp add: addTeamRule_def getAllTeamRules_def redis_set_def Let_def js_member_def
      object_prototype_members_def)

text \<open>With the store disabled the rule map is the empty object, and a team identifier
  that names a member of \<^verbatim>\<open>Object.prototype\<close> reads that member: removing a rule of
  such a team raises at \<^verbatim>\<open>filter\<close>, and adding one raises at \<^verbatim>\<open>push\<close>, before the
  store is called.\<close>

lemma removeTeamRule_disabled_inherited:
  assumes "\<not> redis_enabled r" and "map_of object_prototype_members tid = Some len"
  shows "removeTeamRule parse stringify r tid ruleId
         = (Inl (TypeError ''all[teamId].filter is not a function''), r)"
  using assms by (simp add: removeTeamRule_def getAllTeamRules_def js_member_def)

lemma removeTeamRule_disabled_constructor:
  "removeTeamRule (\<lambda>s. None) (\<lambda>m. ''rules'') \<lparr>redis_enabled = False, redis_client = None\<rparr>
     ''constructor'' ''r1''
   = (Inl (TypeError ''all[teamId].filter is not a function''),
      \<lparr>redis_enabled = False, redis_client = None\<rparr>)"
  by (rule removeTeamRule_disabled_inherited [where len = "Some 1"])
     (simp_all add: object_prototype_members_def)

lemma addTeamRule_disabled_inherited:
  assumes "\<not> redis_enabled r" and "map_of object_prototype_members tid = Some len"
  shows "addTeamRule parse stringify uuid nowIso r tid claimFld claimVal teamRl
         = (Inl (TypeError ''all[teamId].push is not a function''), r)"
  using assms by (simp add: addTeamRule_def getAllTeamRules_def js_member_def Let_def)

text \<open>
  C8, amended. With the store disabled, listing the rules gives the empty map and the
  mapping at login leaves the database as it is, whatever the arguments; removing a
  rule returns false and leaves the store as it is, and the rules of a team are none,
  for every team identifier that names no member of \<^verbatim>\<open>Object.prototype\<close>. None of
  these raises.
\<close>

theorem team_engine_disabled:
  assumes "\<not> redis_enabled r"
  shows "getAllTeamRules parse r = [] \<and>
    (map_of object_prototype_members tid = None \<longrightarrow>
       getTeamRules parse r tid = Value [] \<and>
       removeTeamRule parse stringify r tid ruleId = (Inr False, r)) \<and>
    processOidcTeamMappings parse uuid r db uid userInfo idTokenClaims = db \<and>
    applyTeamMappings parse uuid r db uid userInfo idTokenClaims = db"
  using assms
  by (simp add: getAllTeamRules_def getTeamRules_def removeTeamRule_def js_member_def
      processOidcTeamMappings_def applyTeamMappings_def)

theorem team_engine_disabled_witness:
  "\<not> redis_enabled \<lparr>redis_enabled = False, redis_client = None\<rparr> \<and>
   map_of object_prototype_members ''t1'' = None \<and>
   getAllTeamRules (\<lambda>s. Some demo_rules) \<lparr>redis_enabled = False, redis_client = None\<rparr> = [] \<and>
   getTeamRules (\<lambda>s. Some demo_rules) \<lparr>redis_enabled = False, redis_client = None\<rparr> ''t1''
     = Value [] \<and>
   removeTeamRule (\<lambda>s. Some demo_rules) (\<lambda>m. ''rules'')
     \<lparr>redis_enabled = False, redis_client = None\<rparr> ''t1'' ''r1''
     = (Inr False, \<lparr>redis_enabled = False, redis_client = None\<rparr>) \<and>
   applyTeamMappings (\<lambda>s. Some demo_rules) (\<lambda>n. ''m'' @ nat_to_decimal n)
     \<lparr>redis_enabled = False, redis_client = None\<rparr>
     \<lparr>teams = [''t1''], teamUsers = [], uuids_drawn = 0\<rparr>
     ''u1'' [(''groups'', JArr [JStr ''staff''])] []
     = \<lparr>teams = [''t1''], teamUsers = [], uuids_drawn = 0\<rparr>"
proof -
  have h: "\<not> redis_enabled \<lparr>redis_enabled = False, redis_client = None\<rparr>" by simp
  have p: "map_of object_prototype_members ''t1'' = None"
    by (simp add: object_prototype_members_def)
  from h p
    team_engine_disabled [OF h, where tid = "''t1''" and parse = "\<lambda>s. Some demo_rules"
      and stringify = "\<lambda>m. ''rules''" and ruleId = "''r1''"
      and uuid = "\<lambda>n. ''m'' @ nat_to_decimal n"
      and db = "\<lparr>teams = [''t1''], teamUsers = [], uuids_drawn = 0\<rparr>"
      and uid = "''u1''" and userInfo = "[(''groups'', JArr [JStr ''staff''])]"
      and idTokenClaims = "[]"]
  show ?thesis by simp
qed

text \<open>
  C9. \<^verbatim>\<open>matchesClaim\<close> coerces a claim value that is no array and no string to its
  string: the number 42 matches a rule whose value is \<^verbatim>\<open>"42"\<close>, and the login of a
  user with that claim adds the membership; the role mapper, on the same claim with the
  admin group \<^verbatim>\<open>"42"\<close>, gives \<open>user\<close>.
\<close>

theorem matchesClaim_coerces_number:
  "matchesClaim (JNum 42) ''42'' \<and>
   applyTeamMappings
     (\<lambda>s. Some [(''t1'', [\<lparr>rule_id = ''r1'', claimField = ''level'', claimValue = ''42'',
                              teamRole = ''team_member'', createdAt = ''2024-01-01T00:00:00.000Z''\<rparr>])])
     (\<lambda>n. ''m'' @ nat_to_decimal n)
     \<lparr>redis_enabled = True, redis_client = Some [(RULES_KEY, ''rules'')]\<rparr>
     \<lparr>teams = [''t1''], teamUsers = [], uuids_drawn = 42\<rparr>
     ''u1'' [(''sub'', JStr ''u1''), (''level'', JNum 42)] []
   = \<lparr>teams = [''t1''],
      teamUsers = [\<lparr>tu_id = ''m42'', teamId = ''t1'', userId = ''u1'', role = ''team_member''\<rparr>],
      uuids_drawn = 43\<rparr> \<and>
   mapOidcRole
     \<lparr>enabled = True, clientId = ''id'', clientSecret = ''secret'', issuerUrl = ''https://idp'',
      scopes = ''openid'', redirectUri = [], roleClaim = ''level'', adminGroup = ''42'',
      autoCreate = True, displayName = ''SSO''\<rparr>
     [(''sub'', JStr ''u1''), (''level'', JNum 42)] [] = ''user''"
  by (simp add: matchesClaim_def number_toString_def dec42 applyTeamMappings_def
      processOidcTeamMappings_def getAllTeamRules_def redis_get_def RULES_KEY_def
      coalesce_def get_prop_def ensureTeamMembership_def mapOidcRole_def)

end
